theory Spec2Isabelle
  imports Main "HOL-Library.Word" "HOL-Library.Sublist"
begin

section \<open>Arrays\<close>

text \<open>
  A numpy array is its dtype, its shape and its samples in row-major order. The model
  covers the integer and boolean dtypes: a dtype is a kind (\<open>b\<close>, \<open>u\<close> or \<open>i\<close> in numpy's
  naming) and a width, the width being the length of the word type that holds a sample,
  so that no sample is ever outside the range of its dtype. Arrays of floating point
  samples are outside the model.
\<close>

datatype kind = Boolean | Unsigned | Signed

datatype 'a ndarray = NDArray (kind: kind) (shape: "nat list") (data: "'a list")

definition value_of :: "kind \<Rightarrow> 'w::len word \<Rightarrow> int" where
  \<comment> \<open>the number a sample stands for, as a comparison with a Python integer reads it\<close>
  "value_of k s = (case k of Boolean \<Rightarrow> (if s = 0 then 0 else 1) | Unsigned \<Rightarrow> uint s | Signed \<Rightarrow> sint s)"

definition store :: "kind \<Rightarrow> int \<Rightarrow> 'w::len word" where
  \<comment> \<open>the sample numpy writes when a Python integer (in the range of a C long) is assigned
      to an element: the integer wrapped around to the width of the dtype, and for a
      boolean array whether it is not zero\<close>
  "store k b = (case k of Boolean \<Rightarrow> (if b = 0 then 0 else 1) | Unsigned \<Rightarrow> word_of_int b | Signed \<Rightarrow> word_of_int b)"

definition fits :: "'w::len word ndarray \<Rightarrow> int \<Rightarrow> bool" where
  \<comment> \<open>the dtype of the array can hold the integer: storing it and reading it gives it back\<close>
  "fits a b = (value_of (kind a) (store (kind a) b :: 'w word) = b)"

definition cv2_accepts :: "'w::len word ndarray \<Rightarrow> bool" where
  \<comment> \<open>the integer dtypes OpenCV takes as they are: \<open>uint8\<close>, \<open>int8\<close>, \<open>uint16\<close>, \<open>int16\<close>
      and \<open>int32\<close>\<close>
  "cv2_accepts a =
     (case kind a of
        Boolean \<Rightarrow> False
      | Unsigned \<Rightarrow> LENGTH('w) = 8 \<or> LENGTH('w) = 16
      | Signed \<Rightarrow> LENGTH('w) = 8 \<or> LENGTH('w) = 16 \<or> LENGTH('w) = 32)"

definition cv2_converts :: "'w::len word ndarray \<Rightarrow> bool" where
  \<comment> \<open>\<open>int64\<close> and \<open>uint64\<close>: OpenCV converts such an array to \<open>int32\<close> when it only reads
      it, and refuses it when it is to write into it\<close>
  "cv2_converts a = (kind a \<noteq> Boolean \<and> LENGTH('w) = 64)"

definition ndim :: "'a ndarray \<Rightarrow> nat" where
  \<comment> \<open>\<open>len(np.shape(a))\<close>\<close>
  "ndim a = length (shape a)"

definition size_nd :: "'a ndarray \<Rightarrow> nat" where
  \<comment> \<open>\<open>a.size\<close>: the product of the shape\<close>
  "size_nd a = prod_list (shape a)"

definition nrows :: "'a ndarray \<Rightarrow> nat" where
  "nrows a = (case shape a of [] \<Rightarrow> 0 | h # _ \<Rightarrow> h)"

definition ncols :: "'a ndarray \<Rightarrow> nat" where
  "ncols a = (case shape a of _ # w # _ \<Rightarrow> w | _ \<Rightarrow> 0)"

definition at2 :: "'a ndarray \<Rightarrow> nat \<Rightarrow> nat \<Rightarrow> 'a" where
  \<comment> \<open>\<open>a[i, j]\<close> of a 2-dimensional array, for \<open>i < nrows a\<close> and \<open>j < ncols a\<close>\<close>
  "at2 a i j = data a ! (i * ncols a + j)"

definition wf2 :: "'a ndarray \<Rightarrow> bool" where
  \<comment> \<open>a 2-dimensional array that holds as many samples as its shape says\<close>
  "wf2 a = (ndim a = 2 \<and> length (data a) = nrows a * ncols a)"

definition assign_where :: "('a \<Rightarrow> bool) \<Rightarrow> 'a \<Rightarrow> 'a ndarray \<Rightarrow> 'a ndarray" where
  \<comment> \<open>\<open>a[p(a)] = v\<close>: the boolean index is computed from the samples as they are,
      then every selected sample is overwritten, in the array itself\<close>
  "assign_where p v a = NDArray (kind a) (shape a) (map (\<lambda>s. if p s then v else s) (data a))"

definition slice_indices :: "int \<Rightarrow> int \<Rightarrow> nat \<Rightarrow> nat \<times> nat" where
  \<comment> \<open>Python's \<open>slice(start, stop).indices(n)\<close>: a negative bound counts from the end,
      and both bounds are clipped to \<open>0..n\<close>. The slice has \<open>stop - start\<close> elements,
      none when \<open>stop \<le> start\<close>.\<close>
  "slice_indices start stop n =
     (let norm = (\<lambda>k. if k < 0 then max 0 (k + int n) else min k (int n))
      in (nat (norm start), nat (norm stop)))"

definition slice2 :: "'a ndarray \<Rightarrow> int \<Rightarrow> int \<Rightarrow> int \<Rightarrow> int \<Rightarrow> 'a ndarray" where
  \<comment> \<open>\<open>a[r0:r1, c0:c1]\<close> of a 2-dimensional array\<close>
  "slice2 a r0 r1 c0 c1 =
     (case slice_indices r0 r1 (nrows a) of (rlo, rhi) \<Rightarrow>
      case slice_indices c0 c1 (ncols a) of (clo, chi) \<Rightarrow>
        NDArray (kind a) [rhi - rlo, chi - clo]
          (concat (map (\<lambda>i. take (chi - clo) (drop (i * ncols a + clo) (data a))) [rlo..<rhi])))"

definition constant_border :: "'a::zero ndarray \<Rightarrow> nat \<Rightarrow> nat \<Rightarrow> nat \<Rightarrow> nat \<Rightarrow> 'a ndarray" where
  \<comment> \<open>a new 2-dimensional array: the source with \<open>top_px\<close> rows of zeros above,
      \<open>bottom_px\<close> below, and \<open>left_px\<close> and \<open>right_px\<close> columns of zeros at the sides\<close>
  "constant_border src top_px bottom_px left_px right_px =
     (let h = nrows src; w = ncols src; w' = w + left_px + right_px
      in NDArray (kind src) [h + top_px + bottom_px, w']
           (replicate (top_px * w') 0
            @ concat (map (\<lambda>i. replicate left_px 0 @ take w (drop (i * w) (data src)) @ replicate right_px 0)
                       [0..<h])
            @ replicate (bottom_px * w') 0))"

definition boundingRect :: "(int \<times> int) list \<Rightarrow> int \<times> int \<times> int \<times> int" where
  \<comment> \<open>\<open>cv2.boundingRect\<close> of a contour of integer points \<open>(x, y)\<close>: the smallest upright
      rectangle \<open>(x, y, w, h)\<close> that holds every point; the empty rectangle for no points\<close>
  "boundingRect pts =
     (if pts = [] then (0, 0, 0, 0)
      else let xs = set (map fst pts); ys = set (map snd pts)
           in (Min xs, Min ys, Max xs - Min xs + 1, Max ys - Min ys + 1))"

definition int_div5 :: "int \<Rightarrow> nat" where
  \<comment> \<open>\<open>int(w / 5)\<close>: true division, then truncation towards zero. The result is passed to
      \<open>copyMakeBorder\<close> as a border width; \<open>w\<close> is a width or height of a bounding
      rectangle, never negative.\<close>
  "int_div5 w = (if 0 \<le> w then nat (w div 5) else 0)"

definition astype_bool :: "'w::len word ndarray \<Rightarrow> bool ndarray" where
  \<comment> \<open>\<open>a.astype(np.bool)\<close>: a sample is true when it is not zero\<close>
  "astype_bool a = NDArray Boolean (shape a) (map (\<lambda>v. v \<noteq> 0) (data a))"

definition invert :: "bool ndarray \<Rightarrow> bool ndarray" where
  \<comment> \<open>\<open>~a\<close> of a boolean array\<close>
  "invert a = NDArray Boolean (shape a) (map Not (data a))"

section \<open>Errors\<close>

datatype error =
    FatalError string  \<comment> \<open>raised by \<open>fatal_error(message)\<close>\<close>
  | Cv2Refused         \<comment> \<open>raised by an OpenCV function given an array of a dtype it does not take\<close>
  | AttributeError     \<comment> \<open>raised by \<open>mask.astype\<close> when \<open>mask\<close> is \<open>None\<close>\<close>
  | MaskError          \<comment> \<open>raised by \<open>np.ma.array\<close>: mask and data not compatible\<close>
  | NotModelled        \<comment> \<open>the call leaves what is described here (see \<open>region_restrict\<close>):
                           what numpy and OpenCV do then is not stated, and no result is claimed\<close>

definition fatal_error :: "string \<Rightarrow> error + 'a" where
  \<comment> \<open>Modelled from the spec: \<open>plantcv.fatal_error\<close> is not among the sources. It aborts
      the call at once with the message it is given (a fatal failure, no partial result).\<close>
  "fatal_error message = Inl (FatalError message)"

section \<open>OpenCV calls\<close>

definition rectangle :: "'w::len word ndarray \<Rightarrow> error + unit" where
  \<comment> \<open>\<open>cv2.rectangle(img, pt1, pt2, color, thickness)\<close> on a 2-dimensional array that is
      read nowhere afterwards: all that matters is whether OpenCV takes the array to draw
      into. It refuses \<open>bool\<close>, \<open>uint32\<close>, \<open>int64\<close> and \<open>uint64\<close>.\<close>
  "rectangle img =
     (if \<not> cv2_accepts img then Inl Cv2Refused
      else if nrows img = 0 \<or> ncols img = 0 then Inl NotModelled
      else Inr ())"

definition copyMakeBorder ::
  "'w::len word ndarray \<Rightarrow> nat \<Rightarrow> nat \<Rightarrow> nat \<Rightarrow> nat \<Rightarrow> error + 'w word ndarray option" where
  \<comment> \<open>\<open>cv2.copyMakeBorder(src, top, bottom, left, right, cv2.BORDER_CONSTANT, value=(0, 0, 0))\<close>
      of a 2-dimensional array. A source with at least one row and one column comes back
      surrounded by zeros. For a source without rows or without columns and no border to
      add, the call returns \<open>None\<close>; with a border to add, the result is not stated here.
      Nor is it for a 64-bit source, which comes back as \<open>int32\<close>.\<close>
  "copyMakeBorder src top_px bottom_px left_px right_px =
     (if cv2_converts src then Inl NotModelled
      else if \<not> cv2_accepts src then Inl Cv2Refused
      else if 0 < nrows src \<and> 0 < ncols src
        then Inr (Some (constant_border src top_px bottom_px left_px right_px))
      else if top_px = 0 \<and> bottom_px = 0 \<and> left_px = 0 \<and> right_px = 0 then Inr None
      else Inl NotModelled)"

section \<open>Masked arrays and the figure\<close>

datatype 'a masked = MaskedArray (ma_data: "'a ndarray") (ma_mask: "bool ndarray")

definition np_ma_array :: "'a ndarray \<Rightarrow> bool ndarray \<Rightarrow> error + 'a masked" where
  \<comment> \<open>\<open>np.ma.array(d, mask=m)\<close>: an entry is masked (hidden) where \<open>m\<close> is true. A mask of
      another shape is repeated when it has one element, reshaped when it has as many
      elements as the data, and refused otherwise.\<close>
  "np_ma_array d m =
     (if shape m = shape d then Inr (MaskedArray d m)
      else if size_nd m = 1 then
        Inr (MaskedArray d (NDArray Boolean (shape d)
               (replicate (size_nd d) (case data m of [] \<Rightarrow> False | b # _ \<Rightarrow> b))))
      else if size_nd m = size_nd d then Inr (MaskedArray d (NDArray Boolean (shape d) (data m)))
      else Inl MaskError)"

datatype 'a pixels =
    Plain "'a ndarray"
  | UInt8 "8 word ndarray"
  | MaskedPx "'a masked"

datatype 'a layer = Layer (img: "'a pixels") (cmap_of: "string option")

record 'a figure =
  layers :: "'a layer list"       \<comment> \<open>the images of the axes, in drawing order\<close>
  title :: "string option"
  colorbar :: bool
  ticks_removed :: bool

definition new_figure :: "'a figure" where
  \<comment> \<open>the current pyplot figure is taken to be empty when the call starts\<close>
  "new_figure = \<lparr>layers = [], title = None, colorbar = False, ticks_removed = False\<rparr>"

definition imshow :: "'a pixels \<Rightarrow> string option \<Rightarrow> 'a figure \<Rightarrow> 'a figure" where
  \<comment> \<open>\<open>plt.imshow(X, cmap=cmap)\<close>: one more image on the current axes, above the earlier ones\<close>
  "imshow px cm fig = fig\<lparr>layers := layers fig @ [Layer px cm]\<rparr>"

definition decorate :: "bool \<Rightarrow> 'a figure \<Rightarrow> 'a figure" where
  \<comment> \<open>the title, the colorbar and, when \<open>axes is False\<close>, the removal of the ticks\<close>
  "decorate axes fig =
     (let fig1 = fig\<lparr>title := Some ''Pseudocolored image''\<rparr>;
          fig2 = fig1\<lparr>colorbar := True\<rparr>
      in if \<not> axes then fig2\<lparr>ticks_removed := True\<rparr> else fig2)"




section \<open>The pseudocolor function\<close>

text \<open>
  The arguments \<open>gray_img\<close>, \<open>mask\<close> and \<open>obj\<close> are references to objects of the caller,
  and \<open>params.device\<close> is a counter of the package. They form the state the call starts
  in and the state it leaves behind. The bounds \<open>min_value\<close> and \<open>max_value\<close> are Python
  integers in the range of a C long (64 bits, read as signed): that is the range in which
  numpy compares an integer with the samples exactly and converts it to the dtype of the
  array by wrapping it around. Other bounds are outside the model.
\<close>

record ('a, 'b) caller =
  device :: int
  gray_img :: "'a ndarray"
  mask_img :: "'b ndarray option"
  obj :: "(int \<times> int) list option"

definition builtin_max_differs_from_255 :: bool where
  \<comment> \<open>line 51 reads \<open>if max != 255\<close>: \<open>max\<close> is Python's builtin function, and a function
      object is never equal to the integer 255\<close>
  "builtin_max_differs_from_255 = True"

definition clamp_step :: "int \<Rightarrow> int \<Rightarrow> 'w::len word ndarray \<Rightarrow> 'w word ndarray" where
  \<comment> \<open>lines 51 to 56, on the array \<open>gray_img\<close> refers to: each comparison reads the
      samples as numbers, each assignment stores the bound in the dtype of the array\<close>
  "clamp_step min_value max_value g =
     (let g1 = (if builtin_max_differs_from_255
                then assign_where (\<lambda>s. value_of (kind g) s > max_value) (store (kind g) max_value) g
                else g)
      in if min_value \<noteq> 0
         then assign_where (\<lambda>s. value_of (kind g1) s < min_value) (store (kind g1) min_value) g1
         else g1)"

definition region_restrict ::
  "'w::len word ndarray \<Rightarrow> 'm::len word ndarray \<Rightarrow> (int \<times> int) list option
     \<Rightarrow> error + ('w word ndarray \<times> 'm word ndarray)" where
  \<comment> \<open>lines 60 to 81, and of line 84 the evaluation of \<open>mask.astype\<close>: with a contour, crop
      image and mask to its bounding rectangle and surround both with a zero border. Line
      62 copies the clamped image and line 65 draws a rectangle on the copy, which OpenCV
      may refuse; the copy is read nowhere. A crop without rows or columns makes
      \<open>copyMakeBorder\<close> return \<open>None\<close>, and line 84 then fails on \<open>mask.astype\<close>. Not
      stated: a contour without points, a mask that is not 2-dimensional, an image that
      is \<open>None\<close> beside a mask that is not, and what \<open>copyMakeBorder\<close> leaves unstated.\<close>
  "region_restrict g m ob =
     (case ob of
        None \<Rightarrow> Inr (g, m)
      | Some contour \<Rightarrow>
          if contour = [] then Inl NotModelled
          else
            (case boundingRect contour of (x, y, w, h) \<Rightarrow>
               (case rectangle g of
                  Inl e \<Rightarrow> Inl e
                | Inr _ \<Rightarrow>
                    let crop_img = slice2 g y (y + h) x (x + w);
                        offsetx = int_div5 w;
                        offsety = int_div5 h
                    in (case copyMakeBorder crop_img offsety offsety offsetx offsetx of
                          Inl e \<Rightarrow> Inl e
                        | Inr g' \<Rightarrow>
                            if ndim m \<noteq> 2 then Inl NotModelled
                            else
                              let crop_mask = slice2 m y (y + h) x (x + w)
                              in (case copyMakeBorder crop_mask offsety offsety offsetx offsetx of
                                    Inl e \<Rightarrow> Inl e
                                  | Inr None \<Rightarrow> Inl AttributeError
                                  | Inr (Some m') \<Rightarrow>
                                      (case g' of
                                         None \<Rightarrow> Inl NotModelled
                                       | Some g'' \<Rightarrow> Inr (g'', m')))))))"

definition np_zeros_uint8 :: "nat list \<Rightarrow> 8 word ndarray" where
  "np_zeros_uint8 sh = NDArray Unsigned sh (replicate (prod_list sh) 0)"

definition iadd :: "8 word ndarray \<Rightarrow> 8 word \<Rightarrow> 8 word ndarray" where
  \<comment> \<open>\<open>a += k\<close> on a \<open>uint8\<close> array\<close>
  "iadd a k = NDArray (kind a) (shape a) (map (\<lambda>v. v + k) (data a))"

definition background_layer :: "string \<Rightarrow> 'w::len word ndarray \<Rightarrow> error + ('w word pixels \<times> string)" where
  \<comment> \<open>lines 87 to 105: \<open>(bkg_img, bkg_cmap)\<close>\<close>
  "background_layer background g =
     (if background = ''black'' then Inr (UInt8 (np_zeros_uint8 (shape g)), ''gray'')
      else if background = ''white'' then Inr (UInt8 (iadd (np_zeros_uint8 (shape g)) 255), ''gray_r'')
      else if background = ''image'' then Inr (Plain g, ''gray'')
      else fatal_error (''Background type '' @ background
                        @ '' is not supported. Please use 'white', 'black', or 'image'.''))"

definition pseudocolor ::
  "('w::len word, 'm::len word) caller \<Rightarrow> string option \<Rightarrow> string \<Rightarrow> 64 word \<Rightarrow> 64 word \<Rightarrow> bool
     \<Rightarrow> (error + 'w word figure) \<times> ('w word, 'm word) caller" where
  \<comment> \<open>\<open>pseudocolor(gray_img, mask, cmap, background, min_value, max_value, obj, axes=axes)\<close>
      with \<open>params.debug\<close> off: the result, or the error raised, and the state left behind\<close>
  "pseudocolor c cmap background min_value max_value axes =
     (let c1 = c\<lparr>device := device c + 1\<rparr>
      in if ndim (gray_img c1) \<noteq> 2 then (fatal_error ''Image must be grayscale.'', c1)
         else
           let g = clamp_step (sint min_value) (sint max_value) (gray_img c1);
               c2 = c1\<lparr>gray_img := g\<rparr>
           in case mask_img c2 of
                None \<Rightarrow> (Inr (decorate axes (imshow (Plain g) cmap new_figure)), c2)
              | Some m \<Rightarrow>
                  (case region_restrict g m (obj c2) of
                     Inl e \<Rightarrow> (Inl e, c2)
                   | Inr (g', m') \<Rightarrow>
                       (case np_ma_array g' (invert (astype_bool m')) of
                          Inl e \<Rightarrow> (Inl e, c2)
                        | Inr masked_img \<Rightarrow>
                            (case background_layer background g' of
                               Inl e \<Rightarrow> (Inl e, c2)
                             | Inr (bkg_img, bkg_cmap) \<Rightarrow>
                                 (Inr (decorate axes
                                         (imshow (MaskedPx masked_img) cmap
                                            (imshow bkg_img (Some bkg_cmap) new_figure))),
                                  c2)))))"

section \<open>Example inputs\<close>

text \<open>
  A 6 by 6 \<open>uint16\<close> field with the samples \<open>10, 20, \<dots>, 360\<close>, a \<open>uint8\<close> mask that is set on and
  above the diagonal, and a contour whose bounding rectangle is \<open>(1, 1, 5, 5)\<close>; then the field
  clamped to \<open>100..300\<close>, the crops, and the crops with their border of one pixel. The
  small caller has a 1 by 2 field, a mask and no contour.
\<close>

abbreviation ex_gray :: "16 word ndarray" where
  "ex_gray \<equiv>
     NDArray Unsigned [6, 6]
       [ 10,  20,  30,  40,  50,  60,
         70,  80,  90, 100, 110, 120,
        130, 140, 150, 160, 170, 180,
        190, 200, 210, 220, 230, 240,
        250, 260, 270, 280, 290, 300,
        310, 320, 330, 340, 350, 360]"

abbreviation ex_clamped :: "16 word ndarray" where
  "ex_clamped \<equiv>
     NDArray Unsigned [6, 6]
       [100, 100, 100, 100, 100, 100,
        100, 100, 100, 100, 110, 120,
        130, 140, 150, 160, 170, 180,
        190, 200, 210, 220, 230, 240,
        250, 260, 270, 280, 290, 300,
        300, 300, 300, 300, 300, 300]"

abbreviation ex_mask :: "8 word ndarray" where
  "ex_mask \<equiv>
     NDArray Unsigned [6, 6]
       [255, 255, 255, 255, 255, 255,
          0, 255, 255, 255, 255, 255,
          0,   0, 255, 255, 255, 255,
          0,   0,   0, 255, 255, 255,
          0,   0,   0,   0, 255, 255,
          0,   0,   0,   0,   0, 255]"

abbreviation ex_contour :: "(int \<times> int) list" where
  "ex_contour \<equiv> [(1, 1), (5, 5)]"

abbreviation ex_crop :: "16 word ndarray" where
  "ex_crop \<equiv>
     NDArray Unsigned [5, 5]
       [100, 100, 100, 110, 120,
        140, 150, 160, 170, 180,
        200, 210, 220, 230, 240,
        260, 270, 280, 290, 300,
        300, 300, 300, 300, 300]"

abbreviation ex_crop_mask :: "8 word ndarray" where
  "ex_crop_mask \<equiv>
     NDArray Unsigned [5, 5]
       [255, 255, 255, 255, 255,
          0, 255, 255, 255, 255,
          0,   0, 255, 255, 255,
          0,   0,   0, 255, 255,
          0,   0,   0,   0, 255]"

abbreviation ex_overlay :: "16 word ndarray" where
  "ex_overlay \<equiv>
     NDArray Unsigned [7, 7]
       [  0,   0,   0,   0,   0,   0,   0,
          0, 100, 100, 100, 110, 120,   0,
          0, 140, 150, 160, 170, 180,   0,
          0, 200, 210, 220, 230, 240,   0,
          0, 260, 270, 280, 290, 300,   0,
          0, 300, 300, 300, 300, 300,   0,
          0,   0,   0,   0,   0,   0,   0]"

abbreviation ex_padded_mask :: "8 word ndarray" where
  "ex_padded_mask \<equiv>
     NDArray Unsigned [7, 7]
       [  0,   0,   0,   0,   0,   0,   0,
          0, 255, 255, 255, 255, 255,   0,
          0,   0, 255, 255, 255, 255,   0,
          0,   0,   0, 255, 255, 255,   0,
          0,   0,   0,   0, 255, 255,   0,
          0,   0,   0,   0,   0, 255,   0,
          0,   0,   0,   0,   0,   0,   0]"

abbreviation ex_hidden :: "bool ndarray" where
  "ex_hidden \<equiv>
     NDArray Boolean [7, 7]
       [ True,  True,  True,  True,  True,  True,  True,
         True, False, False, False, False, False,  True,
         True,  True, False, False, False, False,  True,
         True,  True,  True, False, False, False,  True,
         True,  True,  True,  True, False, False,  True,
         True,  True,  True,  True,  True, False,  True,
         True,  True,  True,  True,  True,  True,  True]"

abbreviation ex_caller :: "(16 word, 8 word) caller" where
  "ex_caller \<equiv> \<lparr>device = 0, gray_img = ex_gray, mask_img = Some ex_mask, obj = Some ex_contour\<rparr>"

abbreviation ex_fig :: "16 word figure" where
  "ex_fig \<equiv>
     \<lparr>layers = [Layer (Plain ex_overlay) (Some ''gray''),
                Layer (MaskedPx (MaskedArray ex_overlay ex_hidden)) None],
      title = Some ''Pseudocolored image'', colorbar = True, ticks_removed = False\<rparr>"

abbreviation small_caller :: "(16 word, 8 word) caller" where
  "small_caller \<equiv>
     \<lparr>device = 0, gray_img = NDArray Unsigned [1, 2] [300, 7],
      mask_img = Some (NDArray Unsigned [1, 2] [255, 0]),
      obj = None\<rparr>"

abbreviation small_fig :: "16 word pixels \<Rightarrow> string \<Rightarrow> 16 word figure" where
  "small_fig bkg_img bkg_cmap \<equiv>
     \<lparr>layers = [Layer bkg_img (Some bkg_cmap),
                Layer (MaskedPx (MaskedArray (NDArray Unsigned [1, 2] [255, 7])
                                (NDArray Boolean [1, 2] [False, True]))) None],
      title = Some ''Pseudocolored image'', colorbar = True, ticks_removed = False\<rparr>"

section \<open>Facts about arrays\<close>

subsection \<open>Rows of a row-major array\<close>

lemma row_index_bound: "i < h \<Longrightarrow> j < w \<Longrightarrow> i * w + j < h * (w::nat)"
proof -
  assume a: "i < h" "j < w"
  then have "i * w + j < Suc i * w" by simp
  also have "\<dots> \<le> h * w" using a(1) by (intro mult_le_mono1) simp
  finally show ?thesis .
qed

lemma row_end_bound: "i < h \<Longrightarrow> i * w + w \<le> h * (w::nat)"
proof -
  assume a: "i < h"
  have "i * w + w = Suc i * w" by simp
  also have "\<dots> \<le> h * w" using a by (intro mult_le_mono1) simp
  finally show ?thesis .
qed

lemma length_concat_rows:
  "(\<And>r. r \<in> set rs \<Longrightarrow> length r = n) \<Longrightarrow> length (concat rs) = length rs * n"
  by (induction rs) simp_all

lemma nth_concat_rows:
  "(\<And>r. r \<in> set rs \<Longrightarrow> length r = n) \<Longrightarrow> i < length rs \<Longrightarrow> j < n
   \<Longrightarrow> concat rs ! (i * n + j) = rs ! i ! j"
proof (induction rs arbitrary: i)
  case Nil
  then show ?case by simp
next
  case (Cons r rs)
  show ?case
  proof (cases i)
    case 0
    then show ?thesis using Cons.prems by (simp add: nth_append)
  next
    case (Suc i')
    have "concat rs ! (i' * n + j) = rs ! i' ! j"
      using Cons.prems Suc by (intro Cons.IH) simp_all
    moreover have "length r = n" using Cons.prems by simp
    ultimately show ?thesis using Suc by (simp add: nth_append add.assoc)
  qed
qed

lemma wf2_shape: "wf2 a \<Longrightarrow> shape a = [nrows a, ncols a]"
  by (cases "shape a" rule: list.exhaust; simp add: wf2_def ndim_def nrows_def ncols_def split: list.splits)

lemma wf2I: "shape a = [h, w] \<Longrightarrow> length (data a) = h * w \<Longrightarrow> wf2 a"
  by (simp add: wf2_def ndim_def nrows_def ncols_def)

lemma wf2_length: "wf2 a \<Longrightarrow> length (data a) = nrows a * ncols a"
  by (simp add: wf2_def)

lemma nrows_eq: "shape a = shape b \<Longrightarrow> nrows a = nrows b"
  by (simp add: nrows_def)

lemma ncols_eq: "shape a = shape b \<Longrightarrow> ncols a = ncols b"
  by (simp add: ncols_def)

subsection \<open>Slices\<close>

lemma slice_indices_le:
  "slice_indices s e n = (lo, hi) \<Longrightarrow> lo \<le> n \<and> hi \<le> n"
  by (auto simp add: slice_indices_def Let_def)

lemma slice_indices_inside:
  "0 \<le> s \<Longrightarrow> 0 \<le> d \<Longrightarrow> s + d \<le> int n \<Longrightarrow> slice_indices s (s + d) n = (nat s, nat s + nat d)"
  by (auto simp add: slice_indices_def Let_def nat_add_distrib)

lemma shape_slice2:
  "slice_indices r0 r1 (nrows a) = (rlo, rhi) \<Longrightarrow> slice_indices c0 c1 (ncols a) = (clo, chi)
   \<Longrightarrow> shape (slice2 a r0 r1 c0 c1) = [rhi - rlo, chi - clo]"
  by (simp add: slice2_def)

lemma slice2_row_length:
  assumes "wf2 a" and "i < nrows a" and "chi \<le> ncols a"
  shows "length (take (chi - clo) (drop (i * ncols a + clo) (data a))) = chi - clo"
proof -
  have "i * ncols a + ncols a \<le> length (data a)"
    using assms(1,2) by (simp add: wf2_length row_end_bound)
  then have "i * ncols a + chi \<le> length (data a)" using assms(3) by linarith
  then show ?thesis by simp
qed

lemma wf2_slice2:
  assumes "wf2 a"
  shows "wf2 (slice2 a r0 r1 c0 c1)"
proof -
  obtain rlo rhi where r: "slice_indices r0 r1 (nrows a) = (rlo, rhi)" by force
  obtain clo chi where c: "slice_indices c0 c1 (ncols a) = (clo, chi)" by force
  have le: "rhi \<le> nrows a" "chi \<le> ncols a"
    using slice_indices_le [OF r] slice_indices_le [OF c] by simp_all
  let ?rows = "map (\<lambda>i. take (chi - clo) (drop (i * ncols a + clo) (data a))) [rlo..<rhi]"
  have "length (concat ?rows) = length ?rows * (chi - clo)"
  proof (rule length_concat_rows)
    fix row assume "row \<in> set ?rows"
    then obtain i where "i < rhi" and "row = take (chi - clo) (drop (i * ncols a + clo) (data a))"
      by auto
    then show "length row = chi - clo"
      using slice2_row_length [OF assms, of i chi clo] le by simp
  qed
  then show ?thesis
    by (intro wf2I [of _ "rhi - rlo" "chi - clo"]) (simp_all add: slice2_def r c)
qed

lemma at2_slice2:
  assumes "wf2 a"
    and r: "slice_indices r0 r1 (nrows a) = (rlo, rhi)"
    and c: "slice_indices c0 c1 (ncols a) = (clo, chi)"
    and i: "i < rhi - rlo" and j: "j < chi - clo"
  shows "at2 (slice2 a r0 r1 c0 c1) i j = at2 a (rlo + i) (clo + j)"
proof -
  have le: "rhi \<le> nrows a" "chi \<le> ncols a"
    using slice_indices_le [OF r] slice_indices_le [OF c] by simp_all
  let ?f = "\<lambda>i. take (chi - clo) (drop (i * ncols a + clo) (data a))"
  let ?rows = "map ?f [rlo..<rhi]"
  have len: "\<And>row. row \<in> set ?rows \<Longrightarrow> length row = chi - clo"
  proof -
    fix row assume "row \<in> set ?rows"
    then obtain k where "k < rhi" and "row = ?f k" by auto
    then show "length row = chi - clo"
      using slice2_row_length [OF assms(1), of k chi clo] le by simp
  qed
  have "ncols (slice2 a r0 r1 c0 c1) = chi - clo"
    by (simp add: ncols_def shape_slice2 [OF r c])
  moreover have "data (slice2 a r0 r1 c0 c1) = concat ?rows"
    by (simp add: slice2_def r c)
  ultimately have "at2 (slice2 a r0 r1 c0 c1) i j = concat ?rows ! (i * (chi - clo) + j)"
    by (simp add: at2_def)
  also have "\<dots> = ?rows ! i ! j"
  proof (rule nth_concat_rows)
    show "\<And>row. row \<in> set ?rows \<Longrightarrow> length row = chi - clo" by (rule len)
    show "i < length ?rows" using i by simp
    show "j < chi - clo" by (rule j)
  qed
  also have "\<dots> = ?f (rlo + i) ! j" using i by simp
  also have "\<dots> = data a ! ((rlo + i) * ncols a + clo + j)"
  proof -
    have "rlo + i < nrows a" using i le by linarith
    then have "(rlo + i) * ncols a + ncols a \<le> nrows a * ncols a"
      by (rule row_end_bound)
    then have "(rlo + i) * ncols a + ncols a \<le> length (data a)"
      using assms(1) by (simp only: wf2_length)
    then have "(rlo + i) * ncols a + clo + j < length (data a)" using j le by linarith
    then show ?thesis using j by (simp add: add.assoc)
  qed
  finally show ?thesis by (simp only: at2_def add.assoc)
qed

lemma shape_slice2_same:
  "nrows a = nrows b \<Longrightarrow> ncols a = ncols b \<Longrightarrow>
   shape (slice2 a r0 r1 c0 c1) = shape (slice2 b r0 r1 c0 c1)"
  by (simp add: slice2_def split: prod.splits)

lemma shape_slice2_inside:
  assumes "0 \<le> x" "0 \<le> y" "0 \<le> w" "0 \<le> h"
    and "x + w \<le> int (ncols a)" "y + h \<le> int (nrows a)"
  shows "shape (slice2 a y (y + h) x (x + w)) = [nat h, nat w]"
  using assms
  by (simp add: shape_slice2 [OF slice_indices_inside slice_indices_inside])

subsection \<open>Borders\<close>

lemma shape_constant_border:
  "shape (constant_border src t b l r) = [nrows src + t + b, ncols src + l + r]"
  by (simp add: constant_border_def Let_def)

lemma nrows_constant_border [simp]: "nrows (constant_border src t b l r) = nrows src + t + b"
  by (simp add: nrows_def shape_constant_border)

lemma ncols_constant_border [simp]: "ncols (constant_border src t b l r) = ncols src + l + r"
  by (simp add: ncols_def shape_constant_border)

lemma border_row_length:
  assumes "wf2 src" and "i < nrows src"
  shows "length (replicate l (0::'a::zero) @ take (ncols src) (drop (i * ncols src) (data src)) @ replicate r 0)
         = ncols src + l + r"
proof -
  have "i * ncols src + ncols src \<le> nrows src * ncols src"
    using assms(2) by (rule row_end_bound)
  then have "i * ncols src + ncols src \<le> length (data src)"
    using assms(1) by (simp only: wf2_length)
  then show ?thesis by simp
qed

lemma data_constant_border:
  "data (constant_border src t b l r) =
     replicate (t * (ncols src + l + r)) 0
     @ concat (map (\<lambda>i. replicate l 0 @ take (ncols src) (drop (i * ncols src) (data src)) @ replicate r 0)
                [0..<nrows src])
     @ replicate (b * (ncols src + l + r)) 0"
  by (simp add: constant_border_def Let_def)

lemma border_rows_length:
  assumes "wf2 (src :: 'a::zero ndarray)"
  shows "length (concat (map (\<lambda>i. replicate l (0::'a) @ take (ncols src) (drop (i * ncols src) (data src)) @ replicate r 0)
                [0..<nrows src])) = nrows src * (ncols src + l + r)"
proof -
  let ?f = "\<lambda>i. replicate l (0::'a) @ take (ncols src) (drop (i * ncols src) (data src)) @ replicate r 0"
  have "length (concat (map ?f [0..<nrows src])) = length (map ?f [0..<nrows src]) * (ncols src + l + r)"
  proof (rule length_concat_rows)
    fix row assume "row \<in> set (map ?f [0..<nrows src])"
    then obtain i where "i < nrows src" and "row = ?f i" by auto
    then show "length row = ncols src + l + r"
      using border_row_length [OF assms, of i l r] by simp
  qed
  then show ?thesis by simp
qed


lemma at2_constant_border:
  assumes wf: "wf2 (src :: 'a::zero ndarray)"
    and i: "i < nrows src + t + b" and j: "j < ncols src + l + r"
  shows "at2 (constant_border src t b l r) i j =
           (if t \<le> i \<and> i < t + nrows src \<and> l \<le> j \<and> j < l + ncols src
            then at2 src (i - t) (j - l) else 0)"
proof -
  let ?w' = "ncols src + l + r"
  let ?f = "\<lambda>i. replicate l (0::'a) @ take (ncols src) (drop (i * ncols src) (data src)) @ replicate r 0"
  let ?rows = "map ?f [0..<nrows src]"
  let ?A = "replicate (t * ?w') (0::'a)"
  let ?C = "replicate (b * ?w') (0::'a)"
  have lenB: "length (concat ?rows) = nrows src * ?w'" by (rule border_rows_length [OF wf])
  have at: "at2 (constant_border src t b l r) i j = (?A @ concat ?rows @ ?C) ! (i * ?w' + j)"
    by (simp only: at2_def ncols_constant_border data_constant_border)
  consider (top) "i < t" | (mid) "t \<le> i" "i < t + nrows src" | (bot) "t + nrows src \<le> i"
    by linarith
  then show ?thesis
  proof cases
    case top
    have "i * ?w' + j < t * ?w'" using top j by (rule row_index_bound)
    then have "(?A @ concat ?rows @ ?C) ! (i * ?w' + j) = 0"
      by (simp add: nth_append)
    then show ?thesis using top at by simp
  next
    case mid
    define k where "k = i - t"
    have k: "k < nrows src" "i = t + k" using mid by (simp_all add: k_def)
    have idx: "i * ?w' + j = t * ?w' + (k * ?w' + j)" by (simp add: k(2) algebra_simps)
    have kb: "k * ?w' + j < nrows src * ?w'" using k(1) j by (rule row_index_bound)
    have "(?A @ concat ?rows @ ?C) ! (i * ?w' + j) = (concat ?rows @ ?C) ! (k * ?w' + j)"
      by (simp only: idx nth_append_length_plus [of ?A, simplified])
    also have "\<dots> = concat ?rows ! (k * ?w' + j)"
      using kb by (simp only: nth_append lenB if_True)
    also have "\<dots> = ?rows ! k ! j"
    proof (rule nth_concat_rows)
      fix row assume "row \<in> set ?rows"
      then obtain i' where "i' < nrows src" and "row = ?f i'" by auto
      then show "length row = ?w'" using border_row_length [OF wf, of i' l r] by simp
    next
      show "k < length ?rows" using k(1) by simp
      show "j < ?w'" by (rule j)
    qed
    also have "\<dots> = ?f k ! j" using k(1) by simp
    finally have row: "at2 (constant_border src t b l r) i j = ?f k ! j" using at by simp
    have full: "k * ncols src + ncols src \<le> length (data src)"
      using row_end_bound [OF k(1), of "ncols src"] wf by (simp only: wf2_length)
    have lt: "length (take (ncols src) (drop (k * ncols src) (data src))) = ncols src"
      using full by simp
    show ?thesis
    proof (cases "l \<le> j \<and> j < l + ncols src")
      case True
      then have jl: "j - l < ncols src" "\<not> j < l" by linarith+
      then have "?f k ! j = take (ncols src) (drop (k * ncols src) (data src)) ! (j - l)"
        using lt by (simp add: nth_append)
      also have "\<dots> = data src ! (k * ncols src + (j - l))"
        using jl full by simp
      finally have "?f k ! j = at2 src (i - t) (j - l)" by (simp only: at2_def k_def)
      then show ?thesis using row True mid by simp
    next
      case False
      then have "?f k ! j = 0" using lt j by (auto simp add: nth_append)
      then show ?thesis using row False by auto
    qed
  next
    case bot
    define k where "k = i - t - nrows src"
    have k: "k < b" "i = t + (nrows src + k)" using bot i by (simp_all add: k_def)
    have idx: "i * ?w' + j = t * ?w' + (nrows src * ?w' + (k * ?w' + j))"
      by (simp add: k(2) algebra_simps)
    have kb: "k * ?w' + j < b * ?w'" using k(1) j by (rule row_index_bound)
    have "(?A @ concat ?rows @ ?C) ! (i * ?w' + j) = (concat ?rows @ ?C) ! (nrows src * ?w' + (k * ?w' + j))"
      by (simp only: idx nth_append_length_plus [of ?A, simplified])
    also have "\<dots> = ?C ! (k * ?w' + j)"
      using nth_append_length_plus [of "concat ?rows" ?C "k * ?w' + j"] by (simp only: lenB)
    also have "\<dots> = 0" using kb by simp
    finally show ?thesis using at bot by simp
  qed
qed

subsection \<open>Masks\<close>

lemma shape_invert_astype [simp]: "shape (invert (astype_bool m)) = shape m"
  by (simp add: invert_def astype_bool_def)

lemma np_ma_array_same_shape:
  "shape m = shape d \<Longrightarrow> np_ma_array d m = Inr (MaskedArray d m)"
  by (simp add: np_ma_array_def)

lemma np_ma_array_data: "np_ma_array d m = Inr ma \<Longrightarrow> ma_data ma = d"
  by (auto simp add: np_ma_array_def split: if_splits)


lemma uint8_max: "(v :: 8 word) \<le> 255"
proof -
  have "(255 :: 8 word) = - 1" by simp
  then show ?thesis by (simp only: word_order.extremum)
qed

subsection \<open>Dtypes\<close>

lemma kind_slice2 [simp]: "kind (slice2 a r0 r1 c0 c1) = kind a"
  by (simp add: slice2_def split: prod.splits)

lemma kind_constant_border [simp]: "kind (constant_border src t b l r) = kind src"
  by (simp add: constant_border_def Let_def)

lemma cv2_accepts_kind:
  "kind a = kind b \<Longrightarrow> cv2_accepts (a :: 'w::len word ndarray) = cv2_accepts (b :: 'w word ndarray)"
  by (simp add: cv2_accepts_def)

lemma dtype_range:
  "\<exists>lo hi. (\<forall>v :: 'w::len word. lo \<le> value_of k v \<and> value_of k v \<le> hi)
         \<and> (\<forall>b. lo \<le> b \<longrightarrow> b \<le> hi \<longrightarrow> value_of k (store k b :: 'w word) = b)"
proof (cases k)
  case Boolean
  have "(\<forall>v :: 'w word. 0 \<le> value_of k v \<and> value_of k v \<le> 1)
         \<and> (\<forall>b. 0 \<le> b \<longrightarrow> b \<le> 1 \<longrightarrow> value_of k (store k b :: 'w word) = b)"
    by (auto simp add: Boolean value_of_def store_def)
  then show ?thesis by blast
next
  case Unsigned
  have 1: "uint (word_of_int b :: 'w word) = b" if "0 \<le> b" "b \<le> 2 ^ LENGTH('w) - 1" for b
    using that by (simp add: uint_word_of_int_eq take_bit_int_eq_self)
  have 2: "uint v \<le> 2 ^ LENGTH('w) - 1" for v :: "'w word"
    using uint_lt2p [of v] by simp
  have "(\<forall>v :: 'w word. 0 \<le> value_of k v \<and> value_of k v \<le> 2 ^ LENGTH('w) - 1)
         \<and> (\<forall>b. 0 \<le> b \<longrightarrow> b \<le> 2 ^ LENGTH('w) - 1 \<longrightarrow> value_of k (store k b :: 'w word) = b)"
    using 1 2 by (simp add: Unsigned value_of_def store_def)
  then show ?thesis by blast
next
  case Signed
  have 1: "sint (word_of_int b :: 'w word) = b"
    if "- (2 ^ (LENGTH('w) - 1)) \<le> b" "b \<le> 2 ^ (LENGTH('w) - 1) - 1" for b
    using that by (simp add: sint_sbintrunc' signed_take_bit_int_eq_self)
  have 2: "sint v \<le> 2 ^ (LENGTH('w) - 1) - 1" for v :: "'w word"
    using sint_lt [of v] by simp
  have 3: "- (2 ^ (LENGTH('w) - 1)) \<le> sint v" for v :: "'w word"
    using sint_ge [of v] by simp
  have "(\<forall>v :: 'w word. - (2 ^ (LENGTH('w) - 1)) \<le> value_of k v \<and> value_of k v \<le> 2 ^ (LENGTH('w) - 1) - 1)
         \<and> (\<forall>b. - (2 ^ (LENGTH('w) - 1)) \<le> b \<longrightarrow> b \<le> 2 ^ (LENGTH('w) - 1) - 1
                \<longrightarrow> value_of k (store k b :: 'w word) = b)"
    using 1 2 3 by (simp add: Signed value_of_def store_def)
  then show ?thesis by blast
qed

lemma fits_unsigned:
  assumes "kind a = Unsigned"
  shows "fits (a :: 'w::len word ndarray) b = (0 \<le> b \<and> b < 2 ^ LENGTH('w))"
proof
  assume "fits a b"
  then have "uint (word_of_int b :: 'w word) = b"
    using assms by (simp add: fits_def value_of_def store_def)
  then show "0 \<le> b \<and> b < 2 ^ LENGTH('w)"
    using uint_lt2p [of "word_of_int b :: 'w word"] uint_ge_0 [of "word_of_int b :: 'w word"]
    by simp
next
  assume "0 \<le> b \<and> b < 2 ^ LENGTH('w)"
  then show "fits a b"
    using assms
    by (simp add: fits_def value_of_def store_def uint_word_of_int_eq take_bit_int_eq_self)
qed

lemma fits_signed:
  assumes "kind a = Signed"
  shows "fits (a :: 'w::len word ndarray) b
           = (- (2 ^ (LENGTH('w) - 1)) \<le> b \<and> b < 2 ^ (LENGTH('w) - 1))"
proof
  assume "fits a b"
  then have "sint (word_of_int b :: 'w word) = b"
    using assms by (simp add: fits_def value_of_def store_def)
  then show "- (2 ^ (LENGTH('w) - 1)) \<le> b \<and> b < 2 ^ (LENGTH('w) - 1)"
    using sint_lt [of "word_of_int b :: 'w word"] sint_ge [of "word_of_int b :: 'w word"]
    by simp
next
  assume "- (2 ^ (LENGTH('w) - 1)) \<le> b \<and> b < 2 ^ (LENGTH('w) - 1)"
  then show "fits a b"
    using assms
    by (simp add: fits_def value_of_def store_def sint_sbintrunc' signed_take_bit_int_eq_self)
qed

section \<open>Facts about the steps of pseudocolor\<close>

subsection \<open>The clamp\<close>

lemma clamp_sample_idem:
  fixes val :: "'a \<Rightarrow> int" and W :: "int \<Rightarrow> 'a" and mn mx :: int
  assumes lo: "\<And>v. lo \<le> val v" and hi: "\<And>v. val v \<le> hi"
    and inv: "\<And>b. lo \<le> b \<Longrightarrow> b \<le> hi \<Longrightarrow> val (W b) = b"
  defines "cl \<equiv> \<lambda>v. (let v1 = (if mx < val v then W mx else v)
                      in if mn \<noteq> 0 \<and> val v1 < mn then W mn else v1)"
  shows "cl (cl v) = cl v"
  using lo [of v] hi [of v] lo [of "W mx"] hi [of "W mx"] lo [of "W mn"] hi [of "W mn"]
    inv [of mx] inv [of mn]
  by (auto simp add: cl_def Let_def split: if_splits)

lemma kind_assign_where [simp]: "kind (assign_where p v a) = kind a"
  by (simp add: assign_where_def)

lemma shape_assign_where [simp]: "shape (assign_where p v a) = shape a"
  by (simp add: assign_where_def)

lemma data_assign_where [simp]:
  "data (assign_where p v a) = map (\<lambda>s. if p s then v else s) (data a)"
  by (simp add: assign_where_def)

lemma kind_clamp_step [simp]: "kind (clamp_step mn mx g) = kind g"
  by (simp add: clamp_step_def Let_def)

lemma shape_clamp_step [simp]: "shape (clamp_step mn mx g) = shape g"
  by (simp add: clamp_step_def Let_def)

lemma data_clamp_step:
  "data (clamp_step mn mx g) =
     map (\<lambda>s. let s1 = (if mx < value_of (kind g) s then store (kind g) mx else s)
               in if mn \<noteq> 0 \<and> value_of (kind g) s1 < mn then store (kind g) mn else s1) (data g)"
  by (simp add: clamp_step_def Let_def builtin_max_differs_from_255_def)

lemma clamp_step_wraps:
  "clamp_step 300 400 (NDArray Unsigned [1, 2] [10, 200 :: 8 word]) = NDArray Unsigned [1, 2] [44, 44]"
  by code_simp

lemma ndim_clamp_step [simp]: "ndim (clamp_step mn mx g) = ndim g"
  by (simp add: ndim_def)

lemma nrows_clamp_step [simp]: "nrows (clamp_step mn mx g) = nrows g"
  by (simp add: nrows_def)

lemma ncols_clamp_step [simp]: "ncols (clamp_step mn mx g) = ncols g"
  by (simp add: ncols_def)

lemma wf2_clamp_step: "wf2 g \<Longrightarrow> wf2 (clamp_step mn mx g)"
  by (simp add: wf2_def nrows_def ncols_def data_clamp_step)

lemma clamp_step_idem: "clamp_step mn mx (clamp_step mn mx g) = clamp_step mn mx g"
proof (rule ndarray.expand, intro conjI)
  show "kind (clamp_step mn mx (clamp_step mn mx g)) = kind (clamp_step mn mx g)" by simp
  show "shape (clamp_step mn mx (clamp_step mn mx g)) = shape (clamp_step mn mx g)" by simp
  obtain lo hi where r: "\<And>v :: 'a word. lo \<le> value_of (kind g) v" "\<And>v :: 'a word. value_of (kind g) v \<le> hi"
    "\<And>b. lo \<le> b \<Longrightarrow> b \<le> hi \<Longrightarrow> value_of (kind g) (store (kind g) b :: 'a word) = b"
    using dtype_range [where 'w = 'a and k = "kind g"] by blast
  show "data (clamp_step mn mx (clamp_step mn mx g)) = data (clamp_step mn mx g)"
    by (simp only: data_clamp_step kind_clamp_step map_map o_def
          clamp_sample_idem [where val = "value_of (kind g)" and W = "store (kind g)", OF r])
qed

subsection \<open>The region of interest\<close>

lemma boundingRect_nonneg:
  assumes "boundingRect pts = (x, y, w, h)"
  shows "0 \<le> w \<and> 0 \<le> h"
proof (cases "pts = []")
  case True
  then show ?thesis using assms by (simp add: boundingRect_def)
next
  case False
  then have "Min (set (map fst pts)) \<le> Max (set (map fst pts))"
    and "Min (set (map snd pts)) \<le> Max (set (map snd pts))"
    by (simp_all add: Min_le_iff)
  then show ?thesis using assms False by (auto simp add: boundingRect_def Let_def)
qed

lemma int_div5_floor: "0 \<le> w \<Longrightarrow> int_div5 w = nat (w div 5)"
  by (simp add: int_div5_def)

lemma region_restrict_None [simp]: "region_restrict g m None = Inr (g, m)"
  by (simp add: region_restrict_def)

lemma copyMakeBorder_Some:
  "copyMakeBorder src t b l r = Inr (Some d) \<Longrightarrow>
   d = constant_border src t b l r \<and> cv2_accepts src \<and> 0 < nrows src \<and> 0 < ncols src"
  by (auto simp add: copyMakeBorder_def split: if_splits)

lemma region_restrict_Some:
  assumes "region_restrict g m (Some contour) = Inr (g', m')"
    and "boundingRect contour = (x, y, w, h)"
  shows "g' = constant_border (slice2 g y (y + h) x (x + w))
                (nat (h div 5)) (nat (h div 5)) (nat (w div 5)) (nat (w div 5))"
    and "m' = constant_border (slice2 m y (y + h) x (x + w))
                (nat (h div 5)) (nat (h div 5)) (nat (w div 5)) (nat (w div 5))"
    and "ndim m = 2"
    and "0 < nrows (slice2 g y (y + h) x (x + w)) \<and> 0 < ncols (slice2 g y (y + h) x (x + w))"
    and "0 < nrows (slice2 m y (y + h) x (x + w)) \<and> 0 < ncols (slice2 m y (y + h) x (x + w))"
    and "cv2_accepts g \<and> cv2_accepts m"
proof -
  have nn: "int_div5 w = nat (w div 5)" "int_div5 h = nat (h div 5)"
    using boundingRect_nonneg [OF assms(2)] by (simp_all add: int_div5_floor)
  let ?cg = "slice2 g y (y + h) x (x + w)" and ?cm = "slice2 m y (y + h) x (x + w)"
  let ?oy = "nat (h div 5)" and ?ox = "nat (w div 5)"
  from assms(1) have ne: "contour \<noteq> []"
    by (auto simp add: region_restrict_def split: if_splits)
  from assms(1) have rect: "rectangle g = Inr ()"
    by (auto simp add: region_restrict_def assms(2) ne split: sum.splits)
  then have ag: "cv2_accepts g" by (auto simp add: rectangle_def split: if_splits)
  from assms(1) obtain go where bg: "copyMakeBorder ?cg ?oy ?oy ?ox ?ox = Inr go"
    by (auto simp add: region_restrict_def assms(2) ne rect nn Let_def split: sum.splits)
  from assms(1) have m2: "ndim m = 2"
    by (auto simp add: region_restrict_def assms(2) ne rect nn bg Let_def split: if_splits)
  from assms(1) obtain mo where bm: "copyMakeBorder ?cm ?oy ?oy ?ox ?ox = Inr mo"
    by (auto simp add: region_restrict_def assms(2) ne rect nn bg m2 Let_def split: sum.splits)
  from assms(1) have mo: "mo = Some m'" and go: "go = Some g'"
    by (auto simp add: region_restrict_def assms(2) ne rect nn bg m2 bm Let_def split: option.splits)
  note G = copyMakeBorder_Some [OF bg [unfolded go]]
  note M = copyMakeBorder_Some [OF bm [unfolded mo]]
  show "g' = constant_border ?cg ?oy ?oy ?ox ?ox" using G by simp
  show "m' = constant_border ?cm ?oy ?oy ?ox ?ox" using M by simp
  show "ndim m = 2" by (rule m2)
  show "0 < nrows ?cg \<and> 0 < ncols ?cg" using G by simp
  show "0 < nrows ?cm \<and> 0 < ncols ?cm" using M by simp
  have "cv2_accepts m" using M cv2_accepts_kind [of ?cm m] by simp
  then show "cv2_accepts g \<and> cv2_accepts m" using ag by simp
qed

lemma region_restrict_Inr_ndim:
  assumes "region_restrict g m (Some contour) = Inr (g', m')"
  shows "ndim m = 2"
proof -
  obtain x y w h where b: "boundingRect contour = (x, y, w, h)"
    by (cases "boundingRect contour") auto
  show ?thesis by (rule region_restrict_Some(3) [OF assms b])
qed

lemma region_restrict_same_shape:
  assumes "shape m = shape g" and "region_restrict g m ob = Inr (g', m')"
  shows "shape g' = shape m'"
proof (cases ob)
  case None
  then show ?thesis using assms by simp
next
  case (Some contour)
  obtain x y w h where b: "boundingRect contour = (x, y, w, h)"
    by (cases "boundingRect contour") auto
  have same: "shape (slice2 m y (y + h) x (x + w)) = shape (slice2 g y (y + h) x (x + w))"
    by (rule shape_slice2_same [OF nrows_eq [OF assms(1)] ncols_eq [OF assms(1)]])
  note R = region_restrict_Some [OF assms(2) [unfolded Some] b]
  show ?thesis
    using same unfolding R(1) R(2)
    by (simp add: shape_constant_border nrows_def ncols_def)
qed


subsection \<open>The background and the figure\<close>

lemma background_layer_cases:
  "background_layer ''white'' g =
     Inr (UInt8 (NDArray Unsigned (shape g) (replicate (prod_list (shape g)) 255)), ''gray_r'')"
  "background_layer ''black'' g =
     Inr (UInt8 (NDArray Unsigned (shape g) (replicate (prod_list (shape g)) 0)), ''gray'')"
  "background_layer ''image'' g = Inr (Plain g, ''gray'')"
  by (simp_all add: background_layer_def np_zeros_uint8_def iadd_def)

lemma background_layer_unsupported:
  assumes "bg \<noteq> ''black''" and "bg \<noteq> ''white''" and "bg \<noteq> ''image''"
  shows "background_layer bg g =
           Inl (FatalError (''Background type '' @ bg
                  @ '' is not supported. Please use 'white', 'black', or 'image'.''))"
  using assms by (simp add: background_layer_def fatal_error_def)


lemma layers_decorate [simp]: "layers (decorate ax fig) = layers fig"
  by (simp add: decorate_def Let_def)

lemma layers_imshow [simp]: "layers (imshow px cm fig) = layers fig @ [Layer px cm]"
  by (simp add: imshow_def)

lemma layers_new_figure [simp]: "layers new_figure = []"
  by (simp add: new_figure_def)

subsection \<open>The call\<close>

lemma pseudocolor_gray_img:
  "gray_img (snd (pseudocolor c cm bg mn mx ax)) =
     (if ndim (gray_img c) = 2 then clamp_step (sint mn) (sint mx) (gray_img c) else gray_img c)"
  by (simp add: pseudocolor_def Let_def split: option.splits sum.splits prod.splits)

lemma pseudocolor_keeps_mask_obj:
  "mask_img (snd (pseudocolor c cm bg mn mx ax)) = mask_img c \<and>
   obj (snd (pseudocolor c cm bg mn mx ax)) = obj c"
  by (simp add: pseudocolor_def Let_def split: option.splits sum.splits prod.splits)

lemma pseudocolor_masked:
  assumes "ndim (gray_img c) = 2" and "mask_img c = Some m"
  shows "fst (pseudocolor c cm bg mn mx ax) =
     (case region_restrict (clamp_step (sint mn) (sint mx) (gray_img c)) m (obj c) of
        Inl e \<Rightarrow> Inl e
      | Inr (g', m') \<Rightarrow>
          (case np_ma_array g' (invert (astype_bool m')) of
             Inl e \<Rightarrow> Inl e
           | Inr masked_img \<Rightarrow>
               (case background_layer bg g' of
                  Inl e \<Rightarrow> Inl e
                | Inr (bkg_img, bkg_cmap) \<Rightarrow>
                    Inr (decorate ax (imshow (MaskedPx masked_img) cm
                                        (imshow bkg_img (Some bkg_cmap) new_figure))))))"
  using assms by (simp add: pseudocolor_def Let_def split: sum.splits prod.splits)

lemma pseudocolor_unmasked:
  assumes "ndim (gray_img c) = 2" and "mask_img c = None"
  shows "fst (pseudocolor c cm bg mn mx ax) =
           Inr (decorate ax (imshow (Plain (clamp_step (sint mn) (sint mx) (gray_img c))) cm new_figure))"
  using assms by (simp add: pseudocolor_def Let_def)

lemma pseudocolor_masked_Inr:
  assumes "ndim (gray_img c) = 2" and "mask_img c = Some m"
    and "fst (pseudocolor c cm bg mn mx ax) = Inr fig"
  shows "\<exists>g' m' hidden bkg_img bkg_cmap.
           region_restrict (clamp_step (sint mn) (sint mx) (gray_img c)) m (obj c) = Inr (g', m')
         \<and> background_layer bg g' = Inr (bkg_img, bkg_cmap)
         \<and> fig = decorate ax (imshow (MaskedPx (MaskedArray g' hidden)) cm
                                 (imshow bkg_img (Some bkg_cmap) new_figure))"
proof -
  note eq = assms(3) [unfolded pseudocolor_masked [OF assms(1,2)]]
  show ?thesis
  proof (cases "region_restrict (clamp_step (sint mn) (sint mx) (gray_img c)) m (obj c)")
    case (Inl e)
    then show ?thesis using eq by simp
  next
    case (Inr p)
    obtain g' m' where p: "p = (g', m')" by (cases p)
    show ?thesis
    proof (cases "np_ma_array g' (invert (astype_bool m'))")
      case (Inl e)
      then show ?thesis using eq Inr p by simp
    next
      case ma: (Inr masked_img)
      have d: "masked_img = MaskedArray g' (ma_mask masked_img)"
        using np_ma_array_data [OF ma] by (cases masked_img) simp
      show ?thesis
      proof (cases "background_layer bg g'")
        case (Inl e)
        then show ?thesis using eq Inr p ma by simp
      next
        case bk: (Inr q)
        obtain bkg_img bkg_cmap where q: "q = (bkg_img, bkg_cmap)" by (cases q)
        have "fig = decorate ax (imshow (MaskedPx (MaskedArray g' (ma_mask masked_img))) cm
                                   (imshow bkg_img (Some bkg_cmap) new_figure))"
          using eq Inr p ma bk q d by simp
        then show ?thesis using Inr p bk q by blast
      qed
    qed
  qed
qed

lemmas eval_defs = pseudocolor_def Let_def ndim_def clamp_step_def builtin_max_differs_from_255_def
  assign_where_def decorate_def imshow_def new_figure_def fatal_error_def

section \<open>The range clamp\<close>




text \<open>
  C9. Clamping is idempotent: clamping the clamped field again with the same bounds gives
  the same field, and a second call of \<open>pseudocolor\<close> with the same bounds on the array
  the first call left behind leaves it as it is. This holds for all bounds, so in
  particular for \<open>a \<le> b\<close>, and for every dtype of the field.
\<close>

theorem C9_clamp_idempotent:
  "clamp_step a b (clamp_step a b g) = clamp_step a b g \<and>
   gray_img (snd (pseudocolor (snd (pseudocolor c cm bg mn mx ax)) cm' bg' mn mx ax'))
     = gray_img (snd (pseudocolor c cm bg mn mx ax))"
  by (simp add: pseudocolor_gray_img clamp_step_idem)

section \<open>The shape check\<close>

text \<open>
  C4. A field whose number of dimensions is not 2 makes the call fail with the fatal error
  whose message is \<open>Image must be grayscale.\<close> (the source's message ends with a full
  stop; the text \<open>Image must be grayscale\<close> is its prefix). No figure is returned, and
  the only change of state is the device counter.
\<close>

theorem C4_not_grayscale:
  assumes "ndim (gray_img c) \<noteq> 2"
  shows "fst (pseudocolor c cm bg mn mx ax) = Inl (FatalError ''Image must be grayscale.'')
       \<and> (case fst (pseudocolor c cm bg mn mx ax) of
            Inl (FatalError msg) \<Rightarrow> prefix ''Image must be grayscale'' msg
          | _ \<Rightarrow> False)
       \<and> (\<forall>fig. fst (pseudocolor c cm bg mn mx ax) \<noteq> Inr fig)
       \<and> snd (pseudocolor c cm bg mn mx ax) = c\<lparr>device := device c + 1\<rparr>"
  using assms by (simp add: pseudocolor_def Let_def fatal_error_def)

text \<open>
  C4 at a 3-dimensional and at a 1-dimensional field.
\<close>

theorem C4_not_grayscale_witness:
  "ndim (gray_img \<lparr>device = 0, gray_img = NDArray Unsigned [1, 1, 3] [10, 20, 30 :: 8 word],
                   mask_img = (None :: 8 word ndarray option), obj = None\<rparr>) \<noteq> 2
   \<and> ndim (gray_img \<lparr>device = 0, gray_img = NDArray Unsigned [3] [10, 20, 30 :: 8 word],
                     mask_img = (None :: 8 word ndarray option), obj = None\<rparr>) \<noteq> 2
   \<and> fst (pseudocolor \<lparr>device = 0, gray_img = NDArray Unsigned [1, 1, 3] [10, 20, 30 :: 8 word],
                        mask_img = (None :: 8 word ndarray option), obj = None\<rparr>
           None ''image'' 0 255 True) = Inl (FatalError ''Image must be grayscale.'')
   \<and> fst (pseudocolor \<lparr>device = 0, gray_img = NDArray Unsigned [3] [10, 20, 30 :: 8 word],
                        mask_img = (None :: 8 word ndarray option), obj = None\<rparr>
           None ''image'' 0 255 True) = Inl (FatalError ''Image must be grayscale.'')"
  using C4_not_grayscale [where c = "\<lparr>device = 0, gray_img = NDArray Unsigned [1, 1, 3] [10, 20, 30 :: 8 word],
                                       mask_img = (None :: 8 word ndarray option), obj = None\<rparr>"
                             and cm = None and bg = "''image''" and mn = 0 and mx = 255 and ax = True]
        C4_not_grayscale [where c = "\<lparr>device = 0, gray_img = NDArray Unsigned [3] [10, 20, 30 :: 8 word],
                                       mask_img = (None :: 8 word ndarray option), obj = None\<rparr>"
                             and cm = None and bg = "''image''" and mn = 0 and mx = 255 and ax = True]
  by (simp add: ndim_def)

section \<open>The caller's buffers\<close>

text \<open>
  C3 says that the caller's field is unchanged after the call. The clamp of lines 51 to 56
  assigns into the array \<open>gray_img\<close> refers to, which is the caller's: a 1 by 1 \<open>uint8\<close>
  field holding \<open>200\<close>, clamped with \<open>max_value = 150\<close>, holds \<open>150\<close> after the call. (The
  mask and the contour are left as they were: \<open>pseudocolor_keeps_mask_obj\<close>.)
\<close>

theorem C3_field_mutated:
  "gray_img (snd (pseudocolor
      \<lparr>device = 0, gray_img = NDArray Unsigned [1, 1] [200 :: 8 word],
       mask_img = (None :: 8 word ndarray option), obj = None\<rparr>
      None ''image'' 0 150 True)) = NDArray Unsigned [1, 1] [150]
   \<and> NDArray Unsigned [1, 1] [150] \<noteq> NDArray Unsigned [1, 1] [200 :: 8 word]"
  by code_simp

section \<open>The background selector\<close>

text \<open>
  C2, as stated, without a mask: the branch of lines 131 to 154 never looks at
  \<open>background\<close>, so the selector \<open>red\<close> is accepted and a figure is returned.
\<close>

theorem C2_counterexample:
  "''red'' \<noteq> ''image'' \<and> ''red'' \<noteq> ''white'' \<and> ''red'' \<noteq> ''black''
   \<and> fst (pseudocolor
         \<lparr>device = 0, gray_img = NDArray Unsigned [1, 2] [300, 7 :: 16 word],
          mask_img = (None :: 8 word ndarray option), obj = None\<rparr>
         None ''red'' 0 255 True)
       = Inr \<lparr>layers = [Layer (Plain (NDArray Unsigned [1, 2] [255, 7])) None],
              title = Some ''Pseudocolored image'', colorbar = True, ticks_removed = False\<rparr>"
  by code_simp

text \<open>
  C2, amended. For a selector other than \<open>image\<close>, \<open>white\<close> and \<open>black\<close>: a call with a
  mask never returns a figure. When the field is 2-dimensional, the mask has the shape of
  the field and the restriction to the region of interest gives its two arrays (as it
  does whenever no contour is passed), the selector is read and the failure is the fatal
  error whose message names it; when the restriction fails, its error comes first. A
  call without a mask never reads the selector: it does what it does for \<open>image\<close>.
\<close>

theorem C2_background_check:
  assumes "bg \<noteq> ''image''" and "bg \<noteq> ''white''" and "bg \<noteq> ''black''"
  shows "(mask_img c \<noteq> None \<longrightarrow> (\<exists>e. fst (pseudocolor c cm bg mn mx ax) = Inl e))
       \<and> (ndim (gray_img c) = 2 \<and> mask_img c = Some m \<and> shape m = shape (gray_img c)
            \<and> region_restrict (clamp_step (sint mn) (sint mx) (gray_img c)) m (obj c) = Inr (g', m')
          \<longrightarrow> fst (pseudocolor c cm bg mn mx ax) =
                Inl (FatalError (''Background type '' @ bg
                       @ '' is not supported. Please use 'white', 'black', or 'image'.'')))
       \<and> (ndim (gray_img c) = 2 \<and> mask_img c = Some m \<and> shape m = shape (gray_img c)
            \<and> obj c = None
          \<longrightarrow> fst (pseudocolor c cm bg mn mx ax) =
                Inl (FatalError (''Background type '' @ bg
                       @ '' is not supported. Please use 'white', 'black', or 'image'.'')))
       \<and> (ndim (gray_img c) = 2 \<and> mask_img c = Some m
            \<and> region_restrict (clamp_step (sint mn) (sint mx) (gray_img c)) m (obj c) = Inl e
          \<longrightarrow> fst (pseudocolor c cm bg mn mx ax) = Inl e)
       \<and> (mask_img c = None
          \<longrightarrow> fst (pseudocolor c cm bg mn mx ax) = fst (pseudocolor c cm ''image'' mn mx ax))"
proof -
  note bad = background_layer_unsupported [OF assms(3,2,1)]
  let ?g = "clamp_step (sint mn) (sint mx) (gray_img c)"
  let ?err = "Inl (FatalError (''Background type '' @ bg
                     @ '' is not supported. Please use 'white', 'black', or 'image'.''))"
  have 1: "\<exists>e. fst (pseudocolor c cm bg mn mx ax) = Inl e" if mk: "mask_img c \<noteq> None"
  proof (cases "ndim (gray_img c) = 2")
    case False
    then show ?thesis by (simp add: pseudocolor_def Let_def fatal_error_def)
  next
    case True
    obtain m0 where m: "mask_img c = Some m0" using mk by auto
    show ?thesis unfolding pseudocolor_masked [OF True m]
      by (simp add: bad split: sum.splits prod.splits)
  qed
  have 2: "fst (pseudocolor c cm bg mn mx ax) = ?err"
    if nd: "ndim (gray_img c) = 2" and m: "mask_img c = Some m" and sh: "shape m = shape (gray_img c)"
      and rr: "region_restrict ?g m (obj c) = Inr (g', m')"
    for g' m'
  proof -
    have "shape g' = shape m'"
      using sh by (intro region_restrict_same_shape [OF _ rr]) simp
    then have ma: "np_ma_array g' (invert (astype_bool m')) = Inr (MaskedArray g' (invert (astype_bool m')))"
      by (simp add: np_ma_array_same_shape)
    show ?thesis unfolding pseudocolor_masked [OF nd m] by (simp add: rr ma bad)
  qed
  have 3: "fst (pseudocolor c cm bg mn mx ax) = ?err"
    if nd: "ndim (gray_img c) = 2" and m: "mask_img c = Some m" and sh: "shape m = shape (gray_img c)"
      and ob: "obj c = None"
    by (rule 2 [OF nd m sh]) (simp add: ob)
  have 4: "fst (pseudocolor c cm bg mn mx ax) = Inl e"
    if nd: "ndim (gray_img c) = 2" and m: "mask_img c = Some m"
      and rr: "region_restrict ?g m (obj c) = Inl e"
    unfolding pseudocolor_masked [OF nd m] by (simp add: rr)
  have 5: "fst (pseudocolor c cm bg mn mx ax) = fst (pseudocolor c cm ''image'' mn mx ax)"
    if "mask_img c = None"
    using that by (simp add: pseudocolor_def Let_def)
  show ?thesis using 1 2 3 4 5 by blast
qed

text \<open>
  The amended C2 at the selector \<open>red\<close>: with the mask and the contour of the example the
  fatal error names \<open>red\<close>; so it does for the small caller, which has no contour; a 2 by 2
  field with a mask and the contour \<open>(3, 3), (4, 4)\<close>, whose rectangle lies beside the
  field, fails on \<open>mask.astype\<close> before the selector is read; and without a mask \<open>red\<close>
  gives what \<open>image\<close> gives.
\<close>

theorem C2_background_check_witness:
  "''red'' \<noteq> ''image'' \<and> ''red'' \<noteq> ''white'' \<and> ''red'' \<noteq> ''black''
   \<and> ndim (gray_img ex_caller) = 2
   \<and> mask_img ex_caller = Some ex_mask
   \<and> shape ex_mask = shape (gray_img ex_caller)
   \<and> region_restrict (clamp_step (sint (100 :: 64 word)) (sint (300 :: 64 word)) (gray_img ex_caller))
        ex_mask (obj ex_caller) = Inr (ex_overlay, ex_padded_mask)
   \<and> fst (pseudocolor ex_caller None ''red'' 100 300 True)
       = Inl (FatalError ''Background type red is not supported. Please use 'white', 'black', or 'image'.'')
   \<and> ndim (gray_img small_caller) = 2
   \<and> mask_img small_caller = Some (NDArray Unsigned [1, 2] [255, 0])
   \<and> shape (NDArray Unsigned [1, 2] [255, 0 :: 8 word]) = shape (gray_img small_caller)
   \<and> obj small_caller = None
   \<and> fst (pseudocolor small_caller None ''red'' 0 255 True)
       = Inl (FatalError ''Background type red is not supported. Please use 'white', 'black', or 'image'.'')
   \<and> region_restrict (clamp_step (sint (0 :: 64 word)) (sint (255 :: 64 word))
          (NDArray Unsigned [2, 2] [1, 2, 3, 4 :: 8 word]))
        (NDArray Unsigned [2, 2] [255, 255, 255, 255 :: 8 word]) (Some [(3, 3), (4, 4)])
       = Inl AttributeError
   \<and> fst (pseudocolor
         \<lparr>device = 0, gray_img = NDArray Unsigned [2, 2] [1, 2, 3, 4 :: 8 word],
          mask_img = Some (NDArray Unsigned [2, 2] [255, 255, 255, 255 :: 8 word]),
          obj = Some [(3, 3), (4, 4)]\<rparr>
         None ''red'' 0 255 True) = Inl AttributeError
   \<and> mask_img (small_caller\<lparr>mask_img := None\<rparr>) = None
   \<and> fst (pseudocolor (small_caller\<lparr>mask_img := None\<rparr>) None ''red'' 0 255 True)
       = fst (pseudocolor (small_caller\<lparr>mask_img := None\<rparr>) None ''image'' 0 255 True)"
  (is "?h1 \<and> ?h2 \<and> ?h3 \<and> ?a1 \<and> ?a2 \<and> ?a3 \<and> ?a4 \<and> ?c1 \<and> ?b1 \<and> ?b2 \<and> ?b3 \<and> ?b4 \<and> ?c2
       \<and> ?d1 \<and> ?c3 \<and> ?e1 \<and> ?c4")
proof -
  let ?beside = "\<lparr>device = 0, gray_img = NDArray Unsigned [2, 2] [1, 2, 3, 4 :: 8 word],
          mask_img = Some (NDArray Unsigned [2, 2] [255, 255, 255, 255 :: 8 word]),
          obj = Some [(3, 3), (4, 4)]\<rparr>"
  have h1: ?h1 by simp
  have h2: ?h2 by simp
  have h3: ?h3 by simp
  have a1: ?a1 by code_simp
  have a2: ?a2 by code_simp
  have a3: ?a3 by code_simp
  have a4: ?a4 by code_simp
  have b1: ?b1 by code_simp
  have b2: ?b2 by code_simp
  have b3: ?b3 by code_simp
  have b4: ?b4 by code_simp
  have d1: ?d1 by code_simp
  have d0: "ndim (gray_img ?beside) = 2 \<and> mask_img ?beside = Some (NDArray Unsigned [2, 2] [255, 255, 255, 255 :: 8 word])
            \<and> obj ?beside = Some [(3, 3), (4, 4)]"
    by code_simp
  have e1: ?e1 by simp
  note T = C2_background_check [OF h1 h2 h3]
  have c1: ?c1
    using T [where c = ex_caller and cm = None and mn = 100 and mx = 300 and ax = True
               and m = ex_mask and g' = ex_overlay and m' = ex_padded_mask,
             THEN conjunct2, THEN conjunct1] a1 a2 a3 a4
    by simp
  have c2: ?c2
    using T [where c = small_caller and cm = None and mn = 0 and mx = 255 and ax = True
               and m = "NDArray Unsigned [1, 2] [255, 0]",
             THEN conjunct2, THEN conjunct2, THEN conjunct1] b1 b2 b3 b4
    by simp
  have c3: ?c3
    using T [where c = ?beside and cm = None and mn = 0 and mx = 255 and ax = True
               and m = "NDArray Unsigned [2, 2] [255, 255, 255, 255]" and e = AttributeError,
             THEN conjunct2, THEN conjunct2, THEN conjunct2, THEN conjunct1] d0 d1
    by simp
  have c4: ?c4
    using T [where c = "small_caller\<lparr>mask_img := None\<rparr>" and cm = None and mn = 0 and mx = 255 and ax = True,
             THEN conjunct2, THEN conjunct2, THEN conjunct2, THEN conjunct2] e1
    by simp
  show ?thesis by (intro conjI) (fact h1 h2 h3 a1 a2 a3 a4 b1 b2 b3 b4 d1 e1 c1 c2 c3 c4)+
qed

text \<open>
  C8. With a mask, the first image drawn is the background. For \<open>white\<close> it is a
  \<open>uint8\<close> array of the shape of the (cropped) field filled with \<open>255\<close>, the largest
  \<open>uint8\<close> value, drawn with the colormap \<open>gray_r\<close>; for \<open>black\<close> it is the zero array
  and for \<open>image\<close> the (cropped) field itself, both drawn with \<open>gray\<close>. What a colormap
  name looks like on screen belongs to the plotting library and is not part of the model.
\<close>

theorem C8_background_layer:
  assumes "ndim (gray_img c) = 2" and "mask_img c = Some m"
    and "fst (pseudocolor c cm bg mn mx ax) = Inr fig"
    and "region_restrict (clamp_step (sint mn) (sint mx) (gray_img c)) m (obj c) = Inr (g', m')"
  shows "(bg = ''white'' \<longrightarrow>
            hd (layers fig) = Layer (UInt8 (NDArray Unsigned (shape g') (replicate (prod_list (shape g')) 255)))
                                    (Some ''gray_r''))
       \<and> (bg = ''black'' \<longrightarrow>
            hd (layers fig) = Layer (UInt8 (NDArray Unsigned (shape g') (replicate (prod_list (shape g')) 0)))
                                    (Some ''gray''))
       \<and> (bg = ''image'' \<longrightarrow> hd (layers fig) = Layer (Plain g') (Some ''gray''))
       \<and> (\<forall>v :: 8 word. v \<le> 255)"
proof -
  from pseudocolor_masked_Inr [OF assms(1,2,3)]
  obtain g2 m2 hidden bkg_img bkg_cmap where
    rr: "region_restrict (clamp_step (sint mn) (sint mx) (gray_img c)) m (obj c) = Inr (g2, m2)"
    and bk: "background_layer bg g2 = Inr (bkg_img, bkg_cmap)"
    and fig: "fig = decorate ax (imshow (MaskedPx (MaskedArray g2 hidden)) cm
                                  (imshow bkg_img (Some bkg_cmap) new_figure))"
    by (elim exE conjE)
  have g2: "g2 = g'" using rr assms(4) by simp
  have hd: "hd (layers fig) = Layer bkg_img (Some bkg_cmap)" by (simp add: fig)
  show ?thesis
    using bk unfolding g2 hd by (auto simp add: background_layer_cases uint8_max)
qed

text \<open>
  C8 at the small caller, once for each of the three selectors.
\<close>

theorem C8_background_layer_witness:
  "ndim (gray_img small_caller) = 2
   \<and> mask_img small_caller = Some (NDArray Unsigned [1, 2] [255, 0])
   \<and> region_restrict (clamp_step (sint (0 :: 64 word)) (sint (255 :: 64 word)) (gray_img small_caller))
        (NDArray Unsigned [1, 2] [255, 0 :: 8 word]) (obj small_caller)
       = Inr (NDArray Unsigned [1, 2] [255, 7], NDArray Unsigned [1, 2] [255, 0])
   \<and> fst (pseudocolor small_caller None ''white'' 0 255 True)
       = Inr (small_fig (UInt8 (NDArray Unsigned [1, 2] [255, 255])) ''gray_r'')
   \<and> fst (pseudocolor small_caller None ''black'' 0 255 True)
       = Inr (small_fig (UInt8 (NDArray Unsigned [1, 2] [0, 0])) ''gray'')
   \<and> fst (pseudocolor small_caller None ''image'' 0 255 True)
       = Inr (small_fig (Plain (NDArray Unsigned [1, 2] [255, 7])) ''gray'')
   \<and> hd (layers (small_fig (UInt8 (NDArray Unsigned [1, 2] [255, 255])) ''gray_r''))
       = Layer (UInt8 (NDArray Unsigned (shape (NDArray Unsigned [1, 2] [255, 7 :: 16 word]))
                  (replicate (prod_list (shape (NDArray Unsigned [1, 2] [255, 7 :: 16 word]))) 255)))
               (Some ''gray_r'')
   \<and> hd (layers (small_fig (UInt8 (NDArray Unsigned [1, 2] [0, 0])) ''gray''))
       = Layer (UInt8 (NDArray Unsigned (shape (NDArray Unsigned [1, 2] [255, 7 :: 16 word]))
                  (replicate (prod_list (shape (NDArray Unsigned [1, 2] [255, 7 :: 16 word]))) 0)))
               (Some ''gray'')
   \<and> hd (layers (small_fig (Plain (NDArray Unsigned [1, 2] [255, 7])) ''gray''))
       = Layer (Plain (NDArray Unsigned [1, 2] [255, 7])) (Some ''gray'')"
  (is "?h1 \<and> ?h2 \<and> ?h3 \<and> ?w \<and> ?b \<and> ?i \<and> ?c1 \<and> ?c2 \<and> ?c3")
proof -
  have h1: ?h1 by code_simp
  have h2: ?h2 by code_simp
  have h3: ?h3 by code_simp
  have w: ?w by code_simp
  have b: ?b by code_simp
  have i: ?i by code_simp
  have c1: ?c1 using C8_background_layer [OF h1 h2 w h3, THEN conjunct1] by simp
  have c2: ?c2 using C8_background_layer [OF h1 h2 b h3, THEN conjunct2, THEN conjunct1] by simp
  have c3: ?c3 using C8_background_layer [OF h1 h2 i h3, THEN conjunct2, THEN conjunct2, THEN conjunct1] by simp
  show ?thesis by (intro conjI) (fact h1 h2 h3 w b i c1 c2 c3)+
qed

section \<open>The overlay\<close>



section \<open>Cropping to the region of interest\<close>

text \<open>
  C6. With a mask and a contour of bounding rectangle \<open>(x, y, w, h)\<close>, the array drawn as
  the overlay holds, \<open>int(h / 5)\<close> rows down and \<open>int(w / 5)\<close> columns in, exactly the slice
  \<open>[y:y + h, x:x + w]\<close> of the field as the clamp left it: the clamp comes before the crop.
  When the rectangle lies within the field, the entry at \<open>(i, j)\<close> of the interior is the
  clamped field's entry at \<open>(y + i, x + j)\<close>.
\<close>

theorem C6_crop_interior:
  assumes "wf2 (gray_img c)" and "mask_img c = Some m" and "obj c = Some contour"
    and "boundingRect contour = (x, y, w, h)"
    and "fst (pseudocolor c cm bg mn mx ax) = Inr fig"
    and "crop_img = slice2 (clamp_step (sint mn) (sint mx) (gray_img c)) y (y + h) x (x + w)"
    and "i < nrows crop_img" and "j < ncols crop_img"
  shows "\<exists>bkg hidden g'.
           layers fig = [bkg, Layer (MaskedPx (MaskedArray g' hidden)) cm]
         \<and> at2 g' (nat (h div 5) + i) (nat (w div 5) + j) = at2 crop_img i j
         \<and> at2 crop_img i j =
             at2 (clamp_step (sint mn) (sint mx) (gray_img c))
               (fst (slice_indices y (y + h) (nrows (gray_img c))) + i)
               (fst (slice_indices x (x + w) (ncols (gray_img c))) + j)
         \<and> (0 \<le> x \<and> 0 \<le> y \<and> x + w \<le> int (ncols (gray_img c)) \<and> y + h \<le> int (nrows (gray_img c))
              \<longrightarrow> at2 g' (nat (h div 5) + i) (nat (w div 5) + j)
                   = at2 (clamp_step (sint mn) (sint mx) (gray_img c)) (nat y + i) (nat x + j))"
proof -
  let ?g = "clamp_step (sint mn) (sint mx) (gray_img c)"
  have nd: "ndim (gray_img c) = 2" using assms(1) by (simp add: wf2_def)
  have wfg: "wf2 ?g" using assms(1) by (rule wf2_clamp_step)
  from pseudocolor_masked_Inr [OF nd assms(2,5)]
  obtain g' m' hidden bkg_img bkg_cmap where
    rr: "region_restrict ?g m (obj c) = Inr (g', m')"
    and fig: "fig = decorate ax (imshow (MaskedPx (MaskedArray g' hidden)) cm
                                  (imshow bkg_img (Some bkg_cmap) new_figure))"
    by (elim exE conjE)
  have g': "g' = constant_border crop_img (nat (h div 5)) (nat (h div 5)) (nat (w div 5)) (nat (w div 5))"
    unfolding assms(6) by (rule region_restrict_Some(1) [OF rr [unfolded assms(3)] assms(4)])
  have wfc: "wf2 crop_img" unfolding assms(6) using wfg by (rule wf2_slice2)
  have L: "layers fig = [Layer bkg_img (Some bkg_cmap), Layer (MaskedPx (MaskedArray g' hidden)) cm]"
    by (simp add: fig)
  have 1: "at2 g' (nat (h div 5) + i) (nat (w div 5) + j) = at2 crop_img i j"
    unfolding g' using assms(7,8) by (subst at2_constant_border [OF wfc]) simp_all
  obtain rlo rhi where r: "slice_indices y (y + h) (nrows ?g) = (rlo, rhi)" by force
  obtain clo chi where cc: "slice_indices x (x + w) (ncols ?g) = (clo, chi)" by force
  have sz: "nrows crop_img = rhi - rlo" "ncols crop_img = chi - clo"
    unfolding assms(6) by (simp_all add: nrows_def ncols_def shape_slice2 [OF r cc])
  have "at2 crop_img i j = at2 ?g (rlo + i) (clo + j)"
    unfolding assms(6) using wfg r cc assms(7,8) [unfolded sz] by (rule at2_slice2)
  then have 2: "at2 crop_img i j = at2 ?g (fst (slice_indices y (y + h) (nrows (gray_img c))) + i)
                                       (fst (slice_indices x (x + w) (ncols (gray_img c))) + j)"
    using r cc by simp
  have nn: "0 \<le> w" "0 \<le> h" using boundingRect_nonneg [OF assms(4)] by simp_all
  have 3: "at2 g' (nat (h div 5) + i) (nat (w div 5) + j) = at2 ?g (nat y + i) (nat x + j)"
    if "0 \<le> x \<and> 0 \<le> y \<and> x + w \<le> int (ncols (gray_img c)) \<and> y + h \<le> int (nrows (gray_img c))"
    using that nn 1 2 by (simp add: slice_indices_inside)
  show ?thesis using L 1 2 3 by blast
qed

text \<open>
  C6 at the example, for the entry \<open>(0, 4)\<close> of the interior.
\<close>

theorem C6_crop_interior_witness:
  "wf2 (gray_img ex_caller)
   \<and> mask_img ex_caller = Some ex_mask
   \<and> obj ex_caller = Some ex_contour
   \<and> boundingRect ex_contour = (1, 1, 5, 5)
   \<and> fst (pseudocolor ex_caller None ''image'' 100 300 True) = Inr ex_fig
   \<and> ex_crop = slice2 (clamp_step (sint (100 :: 64 word)) (sint (300 :: 64 word)) (gray_img ex_caller)) 1 (1 + 5) 1 (1 + 5)
   \<and> 0 < nrows ex_crop \<and> 4 < ncols ex_crop
   \<and> at2 ex_overlay (nat (5 div 5) + 0) (nat (5 div 5) + 4)
       = at2 (clamp_step (sint (100 :: 64 word)) (sint (300 :: 64 word)) (gray_img ex_caller)) (nat 1 + 0) (nat 1 + 4)"
  (is "?h1 \<and> ?h2 \<and> ?h3 \<and> ?h4 \<and> ?h5 \<and> ?h6 \<and> ?h7 \<and> ?h8 \<and> ?c1")
proof -
  have h1: ?h1 by code_simp
  have h2: ?h2 by code_simp
  have h3: ?h3 by code_simp
  have h4: ?h4 by code_simp
  have h5: ?h5 by code_simp
  have h6: ?h6 by code_simp
  have h7: ?h7 by code_simp
  have h8: ?h8 by code_simp
  from C6_crop_interior [OF h1 h2 h3 h4 h5 h6 h7 h8]
  obtain bkg hidden g' where
    L: "layers ex_fig = [bkg, Layer (MaskedPx (MaskedArray g' hidden)) None]"
    and I: "0 \<le> (1::int) \<and> 0 \<le> (1::int) \<and> 1 + 5 \<le> int (ncols (gray_img ex_caller))
              \<and> 1 + 5 \<le> int (nrows (gray_img ex_caller))
            \<longrightarrow> at2 g' (nat (5 div 5) + 0) (nat (5 div 5) + 4)
                 = at2 (clamp_step (sint (100 :: 64 word)) (sint (300 :: 64 word)) (gray_img ex_caller)) (nat 1 + 0) (nat 1 + 4)"
    by (elim exE conjE)
  have g': "g' = ex_overlay" using L by simp
  have inside: "0 \<le> (1::int) \<and> 0 \<le> (1::int) \<and> 1 + 5 \<le> int (ncols (gray_img ex_caller))
              \<and> 1 + 5 \<le> int (nrows (gray_img ex_caller))"
    by (simp add: nrows_def ncols_def)
  have c1: ?c1 using I inside unfolding g' by (rule mp)
  show ?thesis by (intro conjI) (fact h1 h2 h3 h4 h5 h6 h7 h8 c1)+
qed

text \<open>
  C7. The crops of field and mask are extended by \<open>floor(h / 5)\<close> rows above and below
  and by \<open>floor(w / 5)\<close> columns on the left and on the right, \<open>w\<close> and \<open>h\<close> being those of
  the bounding rectangle, and every entry of that border is zero. This is about a
  restriction that returns its two arrays; it returns none when OpenCV refuses a dtype or
  a crop has no rows or no columns.
\<close>

theorem C7_padding:
  assumes "wf2 g" and "wf2 m"
    and "boundingRect contour = (x, y, w, h)"
    and "region_restrict g m (Some contour) = Inr (g', m')"
    and "crop_img = slice2 g y (y + h) x (x + w)"
    and "crop_mask = slice2 m y (y + h) x (x + w)"
    and "offsetx = nat (w div 5)" and "offsety = nat (h div 5)"
  shows "nrows g' = offsety + nrows crop_img + offsety
       \<and> ncols g' = offsetx + ncols crop_img + offsetx
       \<and> nrows m' = offsety + nrows crop_mask + offsety
       \<and> ncols m' = offsetx + ncols crop_mask + offsetx
       \<and> (\<forall>i < nrows g'. \<forall>j < ncols g'.
             i < offsety \<or> offsety + nrows crop_img \<le> i \<or> j < offsetx \<or> offsetx + ncols crop_img \<le> j
             \<longrightarrow> at2 g' i j = 0)
       \<and> (\<forall>i < nrows m'. \<forall>j < ncols m'.
             i < offsety \<or> offsety + nrows crop_mask \<le> i \<or> j < offsetx \<or> offsetx + ncols crop_mask \<le> j
             \<longrightarrow> at2 m' i j = 0)"
proof -
  have g': "g' = constant_border crop_img offsety offsety offsetx offsetx"
    and m': "m' = constant_border crop_mask offsety offsety offsetx offsetx"
    unfolding assms(5-8) by (rule region_restrict_Some(1,2) [OF assms(4) assms(3)])+
  have wg: "wf2 crop_img" unfolding assms(5) using assms(1) by (rule wf2_slice2)
  have wm: "wf2 crop_mask" unfolding assms(6) using assms(2) by (rule wf2_slice2)
  have sizes: "nrows g' = offsety + nrows crop_img + offsety"
    "ncols g' = offsetx + ncols crop_img + offsetx"
    "nrows m' = offsety + nrows crop_mask + offsety"
    "ncols m' = offsetx + ncols crop_mask + offsetx"
    by (simp_all add: g' m')
  have bg: "at2 g' i j = 0"
    if "i < nrows g'" "j < ncols g'"
      "i < offsety \<or> offsety + nrows crop_img \<le> i \<or> j < offsetx \<or> offsetx + ncols crop_img \<le> j"
    for i j
  proof -
    have "i < nrows crop_img + offsety + offsety" "j < ncols crop_img + offsetx + offsetx"
      using that(1,2) sizes by simp_all
    then show ?thesis using that(3) unfolding g' by (subst at2_constant_border [OF wg]) auto
  qed
  have bm: "at2 m' i j = 0"
    if "i < nrows m'" "j < ncols m'"
      "i < offsety \<or> offsety + nrows crop_mask \<le> i \<or> j < offsetx \<or> offsetx + ncols crop_mask \<le> j"
    for i j
  proof -
    have "i < nrows crop_mask + offsety + offsety" "j < ncols crop_mask + offsetx + offsetx"
      using that(1,2) sizes by simp_all
    then show ?thesis using that(3) unfolding m' by (subst at2_constant_border [OF wm]) auto
  qed
  show ?thesis using sizes bg bm by blast
qed

text \<open>
  C7 at the example: a border of one pixel on each side, zero at \<open>(0, 3)\<close>, \<open>(3, 6)\<close> and,
  in the mask, \<open>(6, 0)\<close>.
\<close>

theorem C7_padding_witness:
  "wf2 ex_clamped \<and> wf2 ex_mask
   \<and> boundingRect ex_contour = (1, 1, 5, 5)
   \<and> region_restrict ex_clamped ex_mask (Some ex_contour) = Inr (ex_overlay, ex_padded_mask)
   \<and> ex_crop = slice2 ex_clamped 1 (1 + 5) 1 (1 + 5)
   \<and> ex_crop_mask = slice2 ex_mask 1 (1 + 5) 1 (1 + 5)
   \<and> (1 :: nat) = nat (5 div 5)
   \<and> nrows ex_overlay = 1 + nrows ex_crop + 1
   \<and> ncols ex_overlay = 1 + ncols ex_crop + 1
   \<and> at2 ex_overlay 0 3 = 0
   \<and> at2 ex_overlay 3 6 = 0
   \<and> at2 ex_padded_mask 6 0 = 0"
  (is "?h1 \<and> ?h2 \<and> ?h3 \<and> ?h4 \<and> ?h5 \<and> ?h6 \<and> ?h7 \<and> ?c1 \<and> ?c2 \<and> ?c3 \<and> ?c4 \<and> ?c5")
proof -
  have h1: ?h1 by code_simp
  have h2: ?h2 by code_simp
  have h3: ?h3 by code_simp
  have h4: ?h4 by code_simp
  have h5: ?h5 by code_simp
  have h6: ?h6 by code_simp
  have h7: ?h7 by code_simp
  note T = C7_padding [OF h1 h2 h3 h4 h5 h6 h7 h7]
  note A = T [THEN conjunct2, THEN conjunct2, THEN conjunct2, THEN conjunct2, THEN conjunct1, rule_format]
  note B = T [THEN conjunct2, THEN conjunct2, THEN conjunct2, THEN conjunct2, THEN conjunct2, rule_format]
  have c1: ?c1 by (rule T [THEN conjunct1])
  have c2: ?c2 by (rule T [THEN conjunct2, THEN conjunct1])
  have c3: ?c3 by (rule A) (simp_all add: nrows_def ncols_def)
  have c4: ?c4 by (rule A) (simp_all add: nrows_def ncols_def)
  have c5: ?c5 by (rule B) (simp_all add: nrows_def ncols_def)
  show ?thesis by (intro conjI) (fact h1 h2 h3 h4 h5 h6 h7 c1 c2 c3 c4 c5)+
qed

text \<open>
  C10, as stated, at a contour that reaches beyond the field: a 2 by 2 \<open>uint8\<close> field and mask and
  the contour \<open>(0, 0), (4, 4)\<close>, of bounding rectangle \<open>(0, 0, 5, 5)\<close>. The slices are
  clipped to the 2 by 2 field, so the padded arrays are 4 by 4, not 7 by 7.
\<close>

theorem C10_counterexample:
  "boundingRect [(0, 0), (4, 4)] = (0, 0, 5, 5)
   \<and> shape (NDArray Unsigned [2, 2] [255, 255, 255, 255 :: 8 word]) = shape (NDArray Unsigned [2, 2] [1, 2, 3, 4 :: 8 word])
   \<and> region_restrict (NDArray Unsigned [2, 2] [1, 2, 3, 4 :: 8 word])
        (NDArray Unsigned [2, 2] [255, 255, 255, 255 :: 8 word])
        (Some [(0, 0), (4, 4)])
      = Inr (NDArray Unsigned [4, 4] [0, 0, 0, 0,  0, 1, 2, 0,  0, 3, 4, 0,  0, 0, 0, 0],
             NDArray Unsigned [4, 4] [0, 0, 0, 0,  0, 255, 255, 0,  0, 255, 255, 0,  0, 0, 0, 0])
   \<and> [4, 4] \<noteq> [nat 5 + 2 * nat (5 div 5), nat 5 + 2 * nat (5 div 5)]"
  by code_simp

text \<open>
  C10, amended. When the mask has the shape of the 2-dimensional field and the restriction
  returns its two arrays, the cropped and padded field and mask have the same shape: the
  shape of the slice plus \<open>2 * floor(h / 5)\<close> rows and \<open>2 * floor(w / 5)\<close> columns. It is
  \<open>h + 2 * floor(h / 5)\<close> by \<open>w + 2 * floor(w / 5)\<close> when the bounding rectangle lies within
  the field. (A rectangle that misses the field altogether leaves empty crops, and the
  restriction returns no arrays.)
\<close>

theorem C10_shapes:
  assumes "ndim g = 2" and "shape m = shape g"
    and "boundingRect contour = (x, y, w, h)"
    and "region_restrict g m (Some contour) = Inr (g', m')"
  shows "shape g' = shape m'
       \<and> shape g' = [nrows (slice2 g y (y + h) x (x + w)) + 2 * nat (h div 5),
                      ncols (slice2 g y (y + h) x (x + w)) + 2 * nat (w div 5)]
       \<and> (0 \<le> x \<and> 0 \<le> y \<and> x + w \<le> int (ncols g) \<and> y + h \<le> int (nrows g)
            \<longrightarrow> shape g' = [nat h + 2 * nat (h div 5), nat w + 2 * nat (w div 5)])"
proof -
  have g': "g' = constant_border (slice2 g y (y + h) x (x + w))
                   (nat (h div 5)) (nat (h div 5)) (nat (w div 5)) (nat (w div 5))"
    and m': "m' = constant_border (slice2 m y (y + h) x (x + w))
                   (nat (h div 5)) (nat (h div 5)) (nat (w div 5)) (nat (w div 5))"
    by (rule region_restrict_Some(1,2) [OF assms(4) assms(3)])+
  have same: "shape (slice2 m y (y + h) x (x + w)) = shape (slice2 g y (y + h) x (x + w))"
    by (rule shape_slice2_same [OF nrows_eq [OF assms(2)] ncols_eq [OF assms(2)]])
  have 1: "shape g' = shape m'"
    using same by (simp add: g' m' shape_constant_border nrows_def ncols_def)
  have 2: "shape g' = [nrows (slice2 g y (y + h) x (x + w)) + 2 * nat (h div 5),
                      ncols (slice2 g y (y + h) x (x + w)) + 2 * nat (w div 5)]"
    by (simp add: g' shape_constant_border)
  have nn: "0 \<le> w" "0 \<le> h" using boundingRect_nonneg [OF assms(3)] by simp_all
  have 3: "shape g' = [nat h + 2 * nat (h div 5), nat w + 2 * nat (w div 5)]"
    if "0 \<le> x \<and> 0 \<le> y \<and> x + w \<le> int (ncols g) \<and> y + h \<le> int (nrows g)"
    using that nn by (simp add: 2 nrows_def ncols_def shape_slice2_inside)
  show ?thesis using 1 2 3 by blast
qed

text \<open>
  The amended C10 at a 2 by 5 field whose contour has the bounding rectangle
  \<open>(0, 0, 5, 2)\<close>: both arrays are 2 by 7.
\<close>

theorem C10_shapes_witness:
  "ndim (NDArray Unsigned [2, 5] [1, 2, 3, 4, 5,  6, 7, 8, 9, 10 :: 8 word]) = 2
   \<and> shape (NDArray Unsigned [2, 5] [255, 255, 0, 0, 0,  255, 255, 255, 0, 0 :: 8 word])
       = shape (NDArray Unsigned [2, 5] [1, 2, 3, 4, 5,  6, 7, 8, 9, 10 :: 8 word])
   \<and> boundingRect [(0, 0), (4, 1)] = (0, 0, 5, 2)
   \<and> region_restrict (NDArray Unsigned [2, 5] [1, 2, 3, 4, 5,  6, 7, 8, 9, 10 :: 8 word])
        (NDArray Unsigned [2, 5] [255, 255, 0, 0, 0,  255, 255, 255, 0, 0 :: 8 word]) (Some [(0, 0), (4, 1)])
      = Inr (NDArray Unsigned [2, 7] [0, 1, 2, 3, 4, 5, 0,  0, 6, 7, 8, 9, 10, 0],
             NDArray Unsigned [2, 7] [0, 255, 255, 0, 0, 0, 0,  0, 255, 255, 255, 0, 0, 0])
   \<and> shape (NDArray Unsigned [2, 7] [0, 1, 2, 3, 4, 5, 0,  0, 6, 7, 8, 9, 10 :: 8 word, 0])
       = shape (NDArray Unsigned [2, 7] [0, 255, 255, 0, 0, 0, 0,  0, 255, 255, 255, 0, 0, 0 :: 8 word])
   \<and> shape (NDArray Unsigned [2, 7] [0, 1, 2, 3, 4, 5, 0,  0, 6, 7, 8, 9, 10 :: 8 word, 0])
       = [nat 2 + 2 * nat (2 div 5), nat 5 + 2 * nat (5 div 5)]"
  (is "?h1 \<and> ?h2 \<and> ?h3 \<and> ?h4 \<and> ?c1 \<and> ?c2")
proof -
  have h1: ?h1 by code_simp
  have h2: ?h2 by code_simp
  have h3: ?h3 by code_simp
  have h4: ?h4 by code_simp
  have "?c1 \<and> ?c2"
    using C10_shapes [OF h1 h2 h3 h4] by (simp add: nrows_def ncols_def)
  then show ?thesis using h1 h2 h3 h4 by blast
qed

end
